theory Spec2Isabelle
  imports Complex_Main "HOL-Library.AList"
begin

section \<open>The values the script computes with\<close>

text \<open>
  \<open>docs/js/cube.js\<close> is one immediately-invoked function: it builds a three.js scene around a
  cube, starts a muted video, and leaves its callbacks behind (the two promise chains of
  \<open>video.play()\<close>, the overlay's click listener, the window's resize listener and the
  animation-frame callback). The model below is the script's body as a function from the
  page it is loaded into to the state it leaves, and each callback as a function on that
  state.

  A JavaScript number is a double. A finite one is written as the real it denotes, beside
  \<open>NaN\<close> and the two infinities. The script compares numbers and takes a minimum, which
  are exact, and it divides two integers, where the quotient is rounded to the nearest
  double as IEEE 754 has it. The sign of zero is left out; the timestamps and the rotation
  angles of the animation are kept as reals, without rounding.
\<close>

datatype jsnum = NaN | NegInf | Fin real | PosInf

datatype jsval = Undefined | Num jsnum

fun truthy :: "jsval \<Rightarrow> bool" where
  "truthy Undefined = False"
| "truthy (Num NaN) = False"
| "truthy (Num (Fin r)) = (r \<noteq> 0)"
| "truthy (Num NegInf) = True"
| "truthy (Num PosInf) = True"

text \<open>\<open>a || b\<close>\<close>

definition js_or :: "jsval \<Rightarrow> jsval \<Rightarrow> jsval" where
  "js_or a b = (if truthy a then a else b)"

text \<open>\<open>ToNumber\<close>, which \<open>Math.min\<close> applies to each argument.\<close>

fun to_number :: "jsval \<Rightarrow> jsnum" where
  "to_number Undefined = NaN"
| "to_number (Num n) = n"

fun num_le :: "jsnum \<Rightarrow> jsnum \<Rightarrow> bool" where
  "num_le NaN b = False"
| "num_le a NaN = False"
| "num_le NegInf b = True"
| "num_le a PosInf = True"
| "num_le (Fin a) (Fin b) = (a \<le> b)"
| "num_le (Fin a) NegInf = False"
| "num_le PosInf b = False"

text \<open>\<open>Math.min(a, b)\<close>: \<open>NaN\<close> when either argument is.\<close>

definition math_min :: "jsval \<Rightarrow> jsval \<Rightarrow> jsnum" where
  "math_min a b =
     (let x = to_number a; y = to_number b
      in if x = NaN \<or> y = NaN then NaN else if num_le x y then x else y)"

text \<open>The number of binary digits of a natural number.\<close>

fun bits :: "nat \<Rightarrow> nat" where
  "bits n = (if n = 0 then 0 else Suc (bits (n div 2)))"

declare bits.simps [simp del]

text \<open>The integer nearest to \<open>num / den\<close>, the even one of two equally near (\<open>den\<close> positive).\<close>

definition round_even :: "int \<Rightarrow> int \<Rightarrow> int" where
  "round_even num den =
     (let q = num div den; r = num mod den
      in if 2 * r < den then q else if den < 2 * r then q + 1 else if even q then q else q + 1)"

text \<open>
  The binary exponent of \<open>a / b\<close> for positive \<open>a\<close> and \<open>b\<close>: the \<open>e\<close> with
  \<open>2 ^ e \<le> a / b < 2 ^ (e + 1)\<close>, found from the lengths of \<open>a\<close> and \<open>b\<close> and one
  comparison.
\<close>

definition exponent :: "int \<Rightarrow> int \<Rightarrow> int" where
  "exponent a b =
     (let d = int (bits (nat a)) - int (bits (nat b))
      in if (if 0 \<le> d then b * 2 ^ nat d \<le> a else b \<le> a * 2 ^ nat (- d)) then d else d - 1)"

text \<open>
  The double nearest to \<open>w / h\<close>, ties to even, for \<open>h\<close> other than 0: the quotient is
  scaled to a significand of 53 binary digits, rounded, and scaled back. The operands are
  integers of 32 bits (\<open>clientWidth\<close>, \<open>innerWidth\<close> and the two heights are of the DOM's
  type \<open>long\<close>), so they are doubles as they are, and their quotient stays within the
  exponent range of the normal doubles.
\<close>

definition div_double :: "int \<Rightarrow> int \<Rightarrow> real" where
  "div_double w h =
     (let a = \<bar>w\<bar>; b = \<bar>h\<bar>; k = 52 - exponent a b;
          m = (if 0 \<le> k then round_even (a * 2 ^ nat k) b else round_even a (b * 2 ^ nat (- k)))
      in if w = 0 then 0
         else of_int (sgn w * sgn h) *
              (if 0 \<le> k then of_int m / 2 ^ nat k else of_int m * 2 ^ nat (- k)))"

text \<open>
  \<open>w / h\<close> as line 126 computes it. Division by zero does not raise in JavaScript: it gives
  an infinity, or \<open>NaN\<close> for \<open>0 / 0\<close>.
\<close>

definition js_div :: "int \<Rightarrow> int \<Rightarrow> jsnum" where
  "js_div w h =
     (if h = 0 then (if w = 0 then NaN else if 0 < w then PosInf else NegInf)
      else Fin (div_double w h))"

text \<open>\<open>a || b\<close> on integers: zero is the only falsy one.\<close>

definition int_or :: "int \<Rightarrow> int \<Rightarrow> int" where
  "int_or a b = (if a \<noteq> 0 then a else b)"

section \<open>The page, the library objects and the script's variables\<close>

record element =
  tag :: string
  elem_id :: string
  style :: "(string \<times> string) list"
  innerText :: string

text \<open>
  The objects of the page that the script names. \<open>PageNode i\<close> is the \<open>i\<close>-th element of
  the document as it was at load, in tree order; the others are the nodes the script
  creates, \<open>document.body\<close> and \<open>window\<close>.
\<close>

datatype node_ref = Window | Body | PageNode nat | NewDiv | CanvasEl | OverlayEl | VideoEl

datatype three_const = LibraryDefault | SRGBEncoding | LinearFilter

record renderer_obj =
  antialias :: bool
  pixelRatio :: jsnum
  outputEncoding :: three_const
  render_size :: "(int \<times> int) option"

record camera_obj =
  fov :: real
  aspect :: jsnum
  near :: real
  far :: real
  cam_position :: "real \<times> real \<times> real"
  projection_aspect :: jsnum

record texture_obj =
  tex_ref :: nat
  minFilter :: three_const
  magFilter :: three_const
  generateMipmaps :: bool
  colorSpace :: "string option"
  encoding :: three_const
  tex_needsUpdate :: bool

record material_obj =
  mat_ref :: nat
  color :: "nat option"
  map_tex :: "nat option"
  mat_needsUpdate :: bool

record mesh_obj =
  geometry :: "real \<times> real \<times> real"
  material :: material_obj
  rotation_x :: real
  rotation_y :: real

record video_obj =
  src :: string
  crossOrigin :: string
  loop :: bool
  muted :: bool
  playsInline :: bool
  preload :: string
  attributes :: "(string \<times> string) list"

datatype handler = TryPlay | OnResize

record listener =
  l_target :: node_ref
  l_type :: string
  l_handler :: handler
  l_once :: bool
  l_passive :: bool

datatype origin = Autoplay | Retry

text \<open>
  Why the browser rejects a \<open>play()\<close> promise: \<open>NotAllowedError\<close> where autoplay is
  blocked, \<open>NotSupportedError\<close> where the source cannot be played (the file is missing, or
  its codec unsupported), \<open>AbortError\<close> where the playback request was interrupted.
\<close>

datatype reason = NotAllowedError | NotSupportedError | AbortError

datatype outcome = Resolved | Rejected reason

datatype callback = SetupAndHide | InfoAutoplayBlocked | WarnStillBlocked

text \<open>
  A promise chain \<open>video.play().then(f).catch(g)\<close> that has not settled yet. A chain with no
  \<open>catch\<close> would have \<open>on_rejected = None\<close>.
\<close>

record promise =
  p_origin :: origin
  on_fulfilled :: callback
  on_rejected :: "callback option"

datatype error = ReferenceError string | TypeError string | UnhandledRejection reason

datatype level = Info | Warn | Log

datatype debug_ref = RVideo | RCube | RRenderer | RScene | RCamera

datatype global = ShowVideoURL | ThreeCube "(string \<times> debug_ref) list"

text \<open>
  Every call the script makes into the browser or into three.js, in the order made.
  Property assignments are not calls; they show in the records.
\<close>

datatype action =
    GetElementById string
  | CreateElement string
  | AppendChild node_ref node_ref
  | NewObject string
  | SetPixelRatio jsnum
  | PositionSet
  | SceneAdd
  | SetAttribute string string
  | AddEventListener node_ref string
  | VideoPlay origin
  | SetSize int int
  | UpdateProjectionMatrix
  | PerformanceNow
  | RequestAnimationFrame
  | Render
  | Console level "string list"

record viewport =
  clientWidth :: int
  clientHeight :: int
  innerWidth :: int
  innerHeight :: int

text \<open>What the script finds when it is loaded.\<close>

record env =
  page0 :: "element list"
  three_loaded :: bool
  has_colorSpace :: bool
  devicePixelRatio :: jsval
  load_viewport :: viewport
  performance_now :: real
  video_url :: string
  location_origin :: string

text \<open>
  The page and the closure of the script. \<open>page\<close> is the document at load, which the script
  never changes; \<open>appended\<close> lists the \<open>appendChild\<close> calls as (parent, child).
  \<open>next_ref\<close> numbers the textures and materials, so that two objects built alike are
  still two objects.
\<close>

record state =
  page :: "element list"
  new_div :: "element option"
  appended :: "(node_ref \<times> node_ref) list"
  container :: node_ref
  renderer :: renderer_obj
  scene_children :: "debug_ref list"
  camera :: camera_obj
  cube :: mesh_obj
  video :: video_obj
  overlay :: element
  listeners :: "listener list"
  pending :: "promise list"
  videoTexture :: "texture_obj option"
  materialSet :: bool
  last :: real
  raf_pending :: nat
  window_props :: "(string \<times> global) list"
  next_ref :: nat
  trace :: "action list"

section \<open>The script body\<close>

definition VIDEO_SRC :: string where
  "VIDEO_SRC = ''images/hanterrace.mp4''"

definition CONTAINER_ID :: string where
  "CONTAINER_ID = ''three-container''"

text \<open>The two characters of the script's texts that are not ASCII, as their UTF-8 bytes.\<close>

definition em_dash :: string where
  "em_dash = [CHR 0xE2, CHR 0x80, CHR 0x94]"

definition play_sign :: string where
  "play_sign = [CHR 0xE2, CHR 0x96, CHR 0xB6]"

text \<open>\<open>document.getElementById\<close>: the first element of the document, in tree order, with the id.\<close>

fun getElementById :: "element list \<Rightarrow> string \<Rightarrow> nat option" where
  "getElementById [] i = None"
| "getElementById (e # es) i =
     (if elem_id e = i then Some 0 else map_option Suc (getElementById es i))"

text \<open>
  The state before the first statement. A variable's field holds a placeholder until the
  statement that declares it; no statement reads one before.
\<close>

definition blank :: "env \<Rightarrow> state" where
  "blank e =
     \<lparr>page = page0 e, new_div = None, appended = [], container = Body,
      renderer = \<lparr>antialias = False, pixelRatio = Fin 1, outputEncoding = LibraryDefault,
                  render_size = None\<rparr>,
      scene_children = [],
      camera = \<lparr>fov = 0, aspect = Fin 1, near = 0, far = 0, cam_position = (0, 0, 0),
                projection_aspect = Fin 1\<rparr>,
      cube = \<lparr>geometry = (0, 0, 0),
              material = \<lparr>mat_ref = 0, color = None, map_tex = None, mat_needsUpdate = False\<rparr>,
              rotation_x = 0, rotation_y = 0\<rparr>,
      video = \<lparr>src = [], crossOrigin = [], loop = False, muted = False, playsInline = False,
               preload = [], attributes = []\<rparr>,
      overlay = \<lparr>tag = [], elem_id = [], style = [], innerText = []\<rparr>,
      listeners = [], pending = [], videoTexture = None, materialSet = False, last = 0,
      raf_pending = 0, window_props = [], next_ref = 0, trace = []\<rparr>"

text \<open>
  Lines 11 to 20: the container is looked up, and created only when the lookup fails. The
  document is taken to have a body, as the script takes it on lines 19 and 69.
\<close>

definition locate_container :: "state \<Rightarrow> state" where
  "locate_container s =
     (case getElementById (page s) CONTAINER_ID of
        Some i \<Rightarrow>
          s\<lparr>container := PageNode i, trace := trace s @ [GetElementById CONTAINER_ID]\<rparr>
      | None \<Rightarrow>
          s\<lparr>new_div := Some \<lparr>tag = ''div'', elem_id = CONTAINER_ID,
                 style = [(''position'', ''fixed''), (''inset'', ''0''), (''zIndex'', ''0'')],
                 innerText = []\<rparr>,
            container := NewDiv,
            appended := appended s @ [(Body, NewDiv)],
            trace := trace s @
              [GetElementById CONTAINER_ID, CreateElement ''div'', AppendChild Body NewDiv]\<rparr>)"

text \<open>Line 24: \<open>Math.min(window.devicePixelRatio || 1, 2)\<close>.\<close>

definition pixel_ratio_arg :: "jsval \<Rightarrow> jsnum" where
  "pixel_ratio_arg dpr = math_min (js_or dpr (Num (Fin 1))) (Num (Fin 2))"

text \<open>Lines 23 to 26.\<close>

definition setup_renderer :: "env \<Rightarrow> state \<Rightarrow> state" where
  "setup_renderer e s =
     s\<lparr>renderer := \<lparr>antialias = True, pixelRatio = pixel_ratio_arg (devicePixelRatio e),
                     outputEncoding = SRGBEncoding, render_size = None\<rparr>,
       appended := appended s @ [(container s, CanvasEl)],
       trace := trace s @
         [NewObject ''WebGLRenderer'', SetPixelRatio (pixel_ratio_arg (devicePixelRatio e)),
          AppendChild (container s) CanvasEl]\<rparr>"

text \<open>Lines 29 to 38: scene, camera, and the cube with its placeholder material.\<close>

definition build_scene :: "state \<Rightarrow> state" where
  "build_scene s =
     s\<lparr>scene_children := [RCube],
       camera := \<lparr>fov = 50, aspect = Fin 1, near = 0.1, far = 100, cam_position = (0, 0, 3),
                  projection_aspect = Fin 1\<rparr>,
       cube := \<lparr>geometry = (1.5, 1.5, 1.5),
                material = \<lparr>mat_ref = next_ref s, color = Some 0x222222, map_tex = None,
                             mat_needsUpdate = False\<rparr>,
                rotation_x = 0, rotation_y = 0\<rparr>,
       next_ref := next_ref s + 1,
       trace := trace s @
         [NewObject ''Scene'', NewObject ''PerspectiveCamera'', PositionSet,
          NewObject ''BoxGeometry'', NewObject ''MeshBasicMaterial'', NewObject ''Mesh'',
          SceneAdd]\<rparr>"

text \<open>Lines 41 to 48: the video element, which no \<open>appendChild\<close> ever receives.\<close>

definition create_video :: "state \<Rightarrow> state" where
  "create_video s =
     s\<lparr>video := \<lparr>src = VIDEO_SRC, crossOrigin = ''anonymous'', loop = True, muted = True,
                  playsInline = True, preload = ''auto'',
                  attributes = [(''webkit-playsinline'', [])]\<rparr>,
       trace := trace s @ [CreateElement ''video'', SetAttribute ''webkit-playsinline'' []]\<rparr>"

text \<open>Lines 51 to 69: the play hint, its one-shot click listener, and its place in the body.\<close>

definition create_overlay :: "state \<Rightarrow> state" where
  "create_overlay s =
     s\<lparr>overlay := \<lparr>tag = ''button'', elem_id = [],
                    style = [(''position'', ''fixed''), (''left'', ''50%''), (''top'', ''50%''),
                             (''transform'', ''translate(-50%, -50%)''),
                             (''padding'', ''10px 18px''), (''fontSize'', ''16px''),
                             (''background'', ''rgba(0,0,0,0.6)''), (''color'', ''#fff''),
                             (''border'', ''1px solid rgba(255,255,255,0.12)''),
                             (''borderRadius'', ''8px''), (''cursor'', ''pointer''),
                             (''zIndex'', ''9999''), (''backdropFilter'', ''blur(4px)'')],
                    innerText = play_sign @ '' Click to play video''\<rparr>,
       listeners := listeners s @
         [\<lparr>l_target = OverlayEl, l_type = ''click'', l_handler = TryPlay, l_once = True,
           l_passive = False\<rparr>],
       appended := appended s @ [(Body, OverlayEl)],
       trace := trace s @
         [CreateElement ''button'', AddEventListener OverlayEl ''click'',
          AppendChild Body OverlayEl]\<rparr>"

text \<open>
  Lines 72 to 83: the two variables of the texture swap, and the first \<open>video.play()\<close>
  with its \<open>then\<close> and \<open>catch\<close>. The promise settles after the script body has returned,
  so the body only records the chain.
\<close>

definition attempt_autoplay :: "state \<Rightarrow> state" where
  "attempt_autoplay s =
     s\<lparr>videoTexture := None, materialSet := False,
       pending := pending s @
         [\<lparr>p_origin = Autoplay, on_fulfilled = SetupAndHide,
           on_rejected = Some InfoAutoplayBlocked\<rparr>],
       trace := trace s @ [VideoPlay Autoplay]\<rparr>"

text \<open>Lines 122 to 128.\<close>

definition onResize :: "viewport \<Rightarrow> state \<Rightarrow> state" where
  "onResize vp s =
     (let w = int_or (clientWidth vp) (innerWidth vp);
          h = int_or (clientHeight vp) (innerHeight vp);
          s1 = s\<lparr>renderer := (renderer s)\<lparr>render_size := Some (w, h)\<rparr>,
                 trace := trace s @ [SetSize w h]\<rparr>;
          s2 = s1\<lparr>camera := (camera s1)\<lparr>aspect := js_div w h\<rparr>\<rparr>
      in s2\<lparr>camera := (camera s2)\<lparr>projection_aspect := aspect (camera s2)\<rparr>,
            trace := trace s2 @ [UpdateProjectionMatrix]\<rparr>)"

text \<open>Lines 129 and 130.\<close>

definition install_resize :: "env \<Rightarrow> state \<Rightarrow> state" where
  "install_resize e s =
     onResize (load_viewport e)
       (s\<lparr>listeners := listeners s @
            [\<lparr>l_target = Window, l_type = ''resize'', l_handler = OnResize, l_once = False,
              l_passive = True\<rparr>],
          trace := trace s @ [AddEventListener Window ''resize'']\<rparr>)"

text \<open>Lines 133 and 151.\<close>

definition start_animation :: "env \<Rightarrow> state \<Rightarrow> state" where
  "start_animation e s =
     s\<lparr>last := performance_now e, raf_pending := raf_pending s + 1,
       trace := trace s @ [PerformanceNow, RequestAnimationFrame]\<rparr>"

text \<open>Lines 154 to 170.\<close>

definition expose_debug :: "state \<Rightarrow> state" where
  "expose_debug s =
     s\<lparr>window_props :=
         AList.update ''__threeCube''
           (ThreeCube [(''video'', RVideo), (''cube'', RCube), (''renderer'', RRenderer),
                       (''scene'', RScene), (''camera'', RCamera)])
           (AList.update ''showVideoURL'' ShowVideoURL (window_props s)),
       trace := trace s @
         [Console Info [''cube.js loaded '' @ em_dash @ '' video path:'', VIDEO_SRC]]\<rparr>"

text \<open>
  The whole body. \<open>THREE\<close> is first read on line 23; where the global is missing, that read
  throws and the script ends there, with the container already in place. Where it is
  loaded, it is taken to have the constructors and constants the script names.
\<close>

definition script :: "env \<Rightarrow> (error \<times> state) + state" where
  "script e =
     (let s1 = locate_container (blank e)
      in if \<not> three_loaded e then Inl (ReferenceError ''THREE'', s1)
         else Inr (expose_debug (start_animation e (install_resize e (attempt_autoplay
                (create_overlay (create_video (build_scene (setup_renderer e s1)))))))))"

section \<open>The callbacks\<close>

text \<open>Lines 95 to 97.\<close>

definition hideOverlay :: "state \<Rightarrow> state" where
  "hideOverlay s =
     s\<lparr>overlay := (overlay s)\<lparr>style := AList.update ''display'' ''none'' (style (overlay s))\<rparr>\<rparr>"

text \<open>
  Lines 99 to 119. \<open>"colorSpace" in videoTexture\<close> depends on the three.js build, which the
  environment says.
\<close>

definition setupVideoTexture :: "env \<Rightarrow> state \<Rightarrow> state" where
  "setupVideoTexture e s =
     (if materialSet s then s
      else
        let tx = \<lparr>tex_ref = next_ref s, minFilter = LinearFilter, magFilter = LinearFilter,
                  generateMipmaps = False,
                  colorSpace = (if has_colorSpace e then Some ''srgb'' else None),
                  encoding = (if has_colorSpace e then LibraryDefault else SRGBEncoding),
                  tex_needsUpdate = False\<rparr>;
            mat = \<lparr>mat_ref = next_ref s + 1, color = None, map_tex = Some (tex_ref tx),
                   mat_needsUpdate = True\<rparr>
        in s\<lparr>videoTexture := Some tx,
             cube := (cube s)\<lparr>material := mat\<rparr>,
             materialSet := True,
             next_ref := next_ref s + 2,
             trace := trace s @
               [NewObject ''VideoTexture'', NewObject ''MeshBasicMaterial'',
                Console Info [''Video texture applied to cube.'']]\<rparr>)"

text \<open>Lines 86 to 93: a second \<open>video.play()\<close>, with its own \<open>then\<close> and \<open>catch\<close>.\<close>

definition tryPlay :: "state \<Rightarrow> state" where
  "tryPlay s =
     s\<lparr>pending := pending s @
         [\<lparr>p_origin = Retry, on_fulfilled = SetupAndHide,
           on_rejected = Some WarnStillBlocked\<rparr>],
       trace := trace s @ [VideoPlay Retry]\<rparr>"

fun reason_name :: "reason \<Rightarrow> string" where
  "reason_name NotAllowedError = ''NotAllowedError''"
| "reason_name NotSupportedError = ''NotSupportedError''"
| "reason_name AbortError = ''AbortError''"

text \<open>The bodies of the \<open>then\<close> and \<open>catch\<close> arrows of lines 76 to 83 and 87 to 92.\<close>

fun run_callback :: "env \<Rightarrow> callback \<Rightarrow> outcome \<Rightarrow> state \<Rightarrow> state" where
  "run_callback e SetupAndHide out s = hideOverlay (setupVideoTexture e s)"
| "run_callback e InfoAutoplayBlocked out s =
     s\<lparr>trace := trace s @
        [Console Info [''Autoplay blocked '' @ em_dash @ '' click to play the video.'']]\<rparr>"
| "run_callback e WarnStillBlocked out s =
     s\<lparr>trace := trace s @
        [Console Warn [''Playback still blocked:'',
           (case out of Rejected r \<Rightarrow> reason_name r | Resolved \<Rightarrow> [])]]\<rparr>"

text \<open>
  The browser settles the oldest pending \<open>play()\<close> promise of the given origin. A rejection
  that finds no \<open>catch\<close> on the chain is an uncaught error.
\<close>

definition settle :: "env \<Rightarrow> origin \<Rightarrow> outcome \<Rightarrow> state \<Rightarrow> error + state" where
  "settle e orig out s =
     (case find (\<lambda>p. p_origin p = orig) (pending s) of
        None \<Rightarrow> Inr s
      | Some p \<Rightarrow>
          let s1 = s\<lparr>pending := remove1 p (pending s)\<rparr>
          in (case out of
                Resolved \<Rightarrow> Inr (run_callback e (on_fulfilled p) out s1)
              | Rejected r \<Rightarrow>
                  (case on_rejected p of
                     None \<Rightarrow> Inl (UnhandledRejection r)
                   | Some cb \<Rightarrow> Inr (run_callback e cb out s1))))"

text \<open>
  The assignment \<open>videoTexture.needsUpdate = true\<close> of line 146 on its own: with
  \<open>videoTexture\<close> still undefined it throws.
\<close>

definition touch_texture :: "state \<Rightarrow> error + state" where
  "touch_texture s =
     (case videoTexture s of
        None \<Rightarrow> Inl (TypeError ''videoTexture is undefined'')
      | Some tx \<Rightarrow> Inr (s\<lparr>videoTexture := Some (tx\<lparr>tex_needsUpdate := True\<rparr>)\<rparr>))"

text \<open>
  Lines 134 to 150, called with the frame's timestamp; \<open>rs\<close> is what \<open>video.readyState\<close>
  reads during the call.
\<close>

definition animate :: "real \<Rightarrow> nat \<Rightarrow> state \<Rightarrow> error + state" where
  "animate t rs s =
     (let s1 = s\<lparr>raf_pending := raf_pending s + 1, trace := trace s @ [RequestAnimationFrame]\<rparr>;
          dt = (t - last s1) / 1000;
          s2 = s1\<lparr>last := t\<rparr>;
          s3 = s2\<lparr>cube := (cube s2)\<lparr>rotation_x := rotation_x (cube s2) + dt * 0.35\<rparr>\<rparr>;
          s4 = s3\<lparr>cube := (cube s3)\<lparr>rotation_y := rotation_y (cube s3) + dt * 0.6\<rparr>\<rparr>
      in case (if videoTexture s4 \<noteq> None \<and> 2 \<le> rs then touch_texture s4 else Inr s4) of
           Inl err \<Rightarrow> Inl err
         | Inr s5 \<Rightarrow> Inr (s5\<lparr>trace := trace s5 @ [Render]\<rparr>))"

text \<open>Lines 154 to 158, when someone calls the function from the console.\<close>

definition strip_slash :: "string \<Rightarrow> string" where
  "strip_slash p = (case p of [] \<Rightarrow> [] | c # cs \<Rightarrow> if c = CHR ''/'' then cs else p)"

definition showVideoURL :: "env \<Rightarrow> state \<Rightarrow> state" where
  "showVideoURL e s =
     s\<lparr>trace := trace s @
        [Console Log [''Video src:'', video_url e],
         Console Log [''Attempt to open this URL in a new tab to confirm it'' @ [CHR 0x27] @
                      ''s reachable:''],
         Console Log [location_origin e @ ''/'' @ strip_slash VIDEO_SRC]]\<rparr>"

section \<open>What the browser does to the loaded page\<close>

definition call_handler :: "handler \<Rightarrow> viewport \<Rightarrow> state \<Rightarrow> state" where
  "call_handler h vp s = (case h of TryPlay \<Rightarrow> tryPlay s | OnResize \<Rightarrow> onResize vp s)"

definition hears :: "node_ref \<Rightarrow> string \<Rightarrow> listener \<Rightarrow> bool" where
  "hears tgt ty l = (l_target l = tgt \<and> l_type l = ty)"

text \<open>
  An event of type \<open>ty\<close> on \<open>tgt\<close>: the listeners registered for it run in the order of
  registration, and those registered with \<open>once\<close> are removed as the event fires.
  \<open>vp\<close> is what the size properties read while the listeners run.
\<close>

definition dispatch :: "node_ref \<Rightarrow> string \<Rightarrow> viewport \<Rightarrow> state \<Rightarrow> state" where
  "dispatch tgt ty vp s =
     foldl (\<lambda>a l. call_handler (l_handler l) vp a)
       (s\<lparr>listeners := filter (\<lambda>l. \<not> (hears tgt ty l \<and> l_once l)) (listeners s)\<rparr>)
       (filter (hears tgt ty) (listeners s))"

datatype event =
    DomEvent node_ref string viewport
  | Frame real nat
  | PlaySettled origin outcome
  | CallShowVideoURL

text \<open>
  One turn of the event loop. A frame runs \<open>animate\<close> only when a frame was requested, and
  uses the request up; the console call runs only when the global is there.
\<close>

fun step :: "env \<Rightarrow> event \<Rightarrow> state \<Rightarrow> error + state" where
  "step e (DomEvent tgt ty vp) s = Inr (dispatch tgt ty vp s)"
| "step e (Frame t rs) s =
     (if raf_pending s = 0 then Inr s else animate t rs (s\<lparr>raf_pending := raf_pending s - 1\<rparr>))"
| "step e (PlaySettled orig out) s = settle e orig out s"
| "step e CallShowVideoURL s =
     (if map_of (window_props s) ''showVideoURL'' = Some ShowVideoURL
      then Inr (showVideoURL e s) else Inr s)"

text \<open>Any number of turns; the first uncaught error of a callback is reported.\<close>

fun run :: "env \<Rightarrow> event list \<Rightarrow> state \<Rightarrow> error + state" where
  "run e [] s = Inr s"
| "run e (ev # evs) s = (case step e ev s of Inl err \<Rightarrow> Inl err | Inr s' \<Rightarrow> run e evs s')"

section \<open>Notions the properties are stated with\<close>

text \<open>The state the script body leaves, whether it ran to its end or stopped at line 23.\<close>

definition loaded :: "env \<Rightarrow> state" where
  "loaded e = (case script e of Inl (err, s) \<Rightarrow> s | Inr s \<Rightarrow> s)"

text \<open>The element a node reference stands for, where it is an element of the document.\<close>

definition node_element :: "state \<Rightarrow> node_ref \<Rightarrow> element option" where
  "node_element s r =
     (case r of
        PageNode i \<Rightarrow> (if i < length (page s) then Some (page s ! i) else None)
      | NewDiv \<Rightarrow> new_div s
      | OverlayEl \<Rightarrow> Some (overlay s)
      | CanvasEl \<Rightarrow> Some \<lparr>tag = ''canvas'', elem_id = [], style = [], innerText = []\<rparr>
      | _ \<Rightarrow> None)"

text \<open>The elements of the document: those of the page at load and those appended since.\<close>

definition document_elements :: "state \<Rightarrow> element list" where
  "document_elements s = page s @ List.map_filter (\<lambda>(p, c). node_element s c) (appended s)"

definition count_id :: "string \<Rightarrow> element list \<Rightarrow> nat" where
  "count_id i es = length (filter (\<lambda>x. elem_id x = i) es)"

text \<open>
  The spec's words for line 24: the device pixel ratio, or 1 where that is undefined or 0,
  capped at 2.
\<close>

definition capped_ratio_spec :: "jsval \<Rightarrow> jsnum" where
  "capped_ratio_spec dpr =
     (case dpr of
        Undefined \<Rightarrow> Fin 1
      | Num NaN \<Rightarrow> Fin 1
      | Num NegInf \<Rightarrow> NegInf
      | Num PosInf \<Rightarrow> Fin 2
      | Num (Fin r) \<Rightarrow> if r = 0 then Fin 1 else Fin (min r 2))"

text \<open>The half-open interval from 0 to 2, 2 included.\<close>

definition in_0_2 :: "jsnum \<Rightarrow> bool" where
  "in_0_2 v = (case v of Fin r \<Rightarrow> 0 < r \<and> r \<le> 2 | _ \<Rightarrow> False)"

definition not_negative :: "jsval \<Rightarrow> bool" where
  "not_negative dpr = (case dpr of Num (Fin r) \<Rightarrow> 0 \<le> r | Num NegInf \<Rightarrow> False | _ \<Rightarrow> True)"

text \<open>How often a retry was started, and how often a video texture was built.\<close>

definition retries :: "state \<Rightarrow> nat" where
  "retries s = count_list (trace s) (VideoPlay Retry)"

definition swaps :: "state \<Rightarrow> nat" where
  "swaps s = count_list (trace s) (NewObject ''VideoTexture'')"

text \<open>Where an action first shows in a trace, and whether given actions first show in the given order.\<close>

fun first_index :: "'a \<Rightarrow> 'a list \<Rightarrow> nat option" where
  "first_index x [] = None"
| "first_index x (y # ys) = (if x = y then Some 0 else map_option Suc (first_index x ys))"

fun increasing :: "nat option list \<Rightarrow> bool" where
  "increasing [] = True"
| "increasing [x] = (x \<noteq> None)"
| "increasing (x # y # r) =
     (case (x, y) of (Some a, Some b) \<Rightarrow> a < b \<and> increasing (y # r) | _ \<Rightarrow> False)"

definition in_order :: "'a list \<Rightarrow> 'a list \<Rightarrow> bool" where
  "in_order marks tr = increasing (map (\<lambda>m. first_index m tr) marks)"

text \<open>
  The steps (a) to (f) of the spec's overview, each by the calls that make it up:
  (a) the container lookup, (b) renderer, scene, camera and mesh, (c) the video element and
  \<open>video.play()\<close>, (d) the video texture of the swap, (e) the resize listener, (f) the first
  animation-frame request.
\<close>

definition steps_abc :: "action list" where
  "steps_abc =
     [GetElementById CONTAINER_ID,
      NewObject ''WebGLRenderer'', NewObject ''Scene'', NewObject ''PerspectiveCamera'',
      NewObject ''Mesh'',
      CreateElement ''video'', VideoPlay Autoplay]"

definition step_d :: action where
  "step_d = NewObject ''VideoTexture''"

definition steps_ef :: "action list" where
  "steps_ef = [AddEventListener Window ''resize'', RequestAnimationFrame]"

text \<open>The sequence as the spec states it, and as the script and its callback run it.\<close>

definition stated_sequence :: "action list" where
  "stated_sequence = steps_abc @ [step_d] @ steps_ef"

definition actual_sequence :: "action list" where
  "actual_sequence = steps_abc @ steps_ef @ [step_d]"

fun is_frame :: "event \<Rightarrow> bool" where
  "is_frame (Frame t rs) = True"
| "is_frame ev = False"

fun is_play_success :: "event \<Rightarrow> bool" where
  "is_play_success (PlaySettled orig Resolved) = True"
| "is_play_success ev = False"

text \<open>
  A rejection is left unhandled where the turn that settles the promise ends in an uncaught
  error, or changes nothing at all.
\<close>

definition unhandled :: "env \<Rightarrow> state \<Rightarrow> origin \<Rightarrow> reason \<Rightarrow> bool" where
  "unhandled e s orig r =
     (case step e (PlaySettled orig (Rejected r)) s of Inl err \<Rightarrow> True | Inr s' \<Rightarrow> s' = s)"

text \<open>The two listeners the script registers.\<close>

definition click_listener :: listener where
  "click_listener =
     \<lparr>l_target = OverlayEl, l_type = ''click'', l_handler = TryPlay, l_once = True,
      l_passive = False\<rparr>"

definition resize_listener :: listener where
  "resize_listener =
     \<lparr>l_target = Window, l_type = ''resize'', l_handler = OnResize, l_once = False,
      l_passive = True\<rparr>"

text \<open>
  What holds of the page after the script and after any events: every pending promise
  chain has the script's \<open>then\<close> and one of its two \<open>catch\<close> arrows; the click listener is
  there exactly as long as no retry was started; one animation frame is requested.
\<close>

definition chains_ok :: "state \<Rightarrow> bool" where
  "chains_ok s =
     list_all (\<lambda>p. on_fulfilled p = SetupAndHide
                 \<and> (on_rejected p = Some InfoAutoplayBlocked \<or> on_rejected p = Some WarnStillBlocked))
       (pending s)"

definition listeners_ok :: "state \<Rightarrow> bool" where
  "listeners_ok s =
     ((retries s = 0 \<and> listeners s = [click_listener, resize_listener])
      \<or> (retries s = 1 \<and> listeners s = [resize_listener]))"

definition page_inv :: "state \<Rightarrow> bool" where
  "page_inv s = (chains_ok s \<and> listeners_ok s \<and> raf_pending s = 1)"

subsection \<open>Pages to run the script on\<close>

definition plain_element :: "string \<Rightarrow> string \<Rightarrow> element" where
  "plain_element t i = \<lparr>tag = t, elem_id = i, style = [], innerText = []\<rparr>"

definition desktop :: viewport where
  "desktop = \<lparr>clientWidth = 800, clientHeight = 600, innerWidth = 1024, innerHeight = 768\<rparr>"

text \<open>A page with no container, and three.js loaded.\<close>

definition bare_page :: env where
  "bare_page =
     \<lparr>page0 = [plain_element ''h1'' ''title''], three_loaded = True, has_colorSpace = True,
      devicePixelRatio = Num (Fin 3), load_viewport = desktop, performance_now = 1000,
      video_url = ''https://example.org/images/hanterrace.mp4'',
      location_origin = ''https://example.org''\<rparr>"

text \<open>The same page with the container in it.\<close>

definition prepared_page :: env where
  "prepared_page =
     bare_page\<lparr>page0 := [plain_element ''h1'' ''title'', plain_element ''div'' CONTAINER_ID]\<rparr>"

text \<open>A page that carries the container's id on two elements.\<close>

definition twin_page :: env where
  "twin_page =
     bare_page\<lparr>page0 := [plain_element ''div'' CONTAINER_ID, plain_element ''section'' CONTAINER_ID]\<rparr>"

text \<open>The bare page without three.js, and with a negative device pixel ratio.\<close>

definition page_without_three :: env where
  "page_without_three = bare_page\<lparr>three_loaded := False\<rparr>"

definition negative_ratio_page :: env where
  "negative_ratio_page = bare_page\<lparr>devicePixelRatio := Num (Fin (- 1))\<rparr>"

text \<open>
  Three readings of the sizes: a container with a size of its own, a container without one
  in a window that has one, and a window of no height.
\<close>

definition wide :: viewport where
  "wide = \<lparr>clientWidth = 1366, clientHeight = 768, innerWidth = 1920, innerHeight = 1080\<rparr>"

definition flat :: viewport where
  "flat = \<lparr>clientWidth = 0, clientHeight = 0, innerWidth = 640, innerHeight = 480\<rparr>"

definition collapsed :: viewport where
  "collapsed = \<lparr>clientWidth = 0, clientHeight = 0, innerWidth = 640, innerHeight = 0\<rparr>"

text \<open>Events for the sample pages: both \<open>play()\<close> promises resolve, the retry after a click.\<close>

definition both_succeed :: "event list" where
  "both_succeed =
     [PlaySettled Autoplay Resolved, DomEvent OverlayEl ''click'' desktop,
      PlaySettled Retry Resolved]"

text \<open>Autoplay is blocked, and so is the retry; the hint is clicked once more.\<close>

definition click_fail_click :: "event list" where
  "click_fail_click =
     [PlaySettled Autoplay (Rejected NotAllowedError), DomEvent OverlayEl ''click'' desktop,
      PlaySettled Retry (Rejected NotAllowedError), DomEvent OverlayEl ''click'' desktop]"

text \<open>The two globals of lines 154 to 167.\<close>

definition debug_globals :: "(string \<times> global) list" where
  "debug_globals =
     [(''showVideoURL'', ShowVideoURL),
      (''__threeCube'',
       ThreeCube [(''video'', RVideo), (''cube'', RCube), (''renderer'', RRenderer),
                  (''scene'', RScene), (''camera'', RCamera)])]"

text \<open>The first \<open>play()\<close> promise resolves.\<close>

definition autoplay_succeeds :: "event list" where
  "autoplay_succeeds = [PlaySettled Autoplay Resolved]"

text \<open>The texture count agrees with the flag.\<close>

definition swap_counted :: "state \<Rightarrow> bool" where
  "swap_counted s = (swaps s = (if materialSet s then 1 else 0))"

section \<open>Which callback touches which variable\<close>

lemma tryPlay_fields [simp]:
  "materialSet (tryPlay s) = materialSet s"
  "cube (tryPlay s) = cube s"
  "videoTexture (tryPlay s) = videoTexture s"
  "video (tryPlay s) = video s"
  "last (tryPlay s) = last s"
  "window_props (tryPlay s) = window_props s"
  "overlay (tryPlay s) = overlay s"
  "listeners (tryPlay s) = listeners s"
  "raf_pending (tryPlay s) = raf_pending s"
  "renderer (tryPlay s) = renderer s"
  "camera (tryPlay s) = camera s"
  by (simp_all add: tryPlay_def)

lemma onResize_fields [simp]:
  "materialSet (onResize vp s) = materialSet s"
  "cube (onResize vp s) = cube s"
  "videoTexture (onResize vp s) = videoTexture s"
  "video (onResize vp s) = video s"
  "last (onResize vp s) = last s"
  "window_props (onResize vp s) = window_props s"
  "overlay (onResize vp s) = overlay s"
  "listeners (onResize vp s) = listeners s"
  "raf_pending (onResize vp s) = raf_pending s"
  "pending (onResize vp s) = pending s"
  by (simp_all add: onResize_def Let_def)

lemma onResize_result:
  "render_size (renderer (onResize vp s))
     = Some (int_or (clientWidth vp) (innerWidth vp), int_or (clientHeight vp) (innerHeight vp))"
  "aspect (camera (onResize vp s))
     = js_div (int_or (clientWidth vp) (innerWidth vp)) (int_or (clientHeight vp) (innerHeight vp))"
  "projection_aspect (camera (onResize vp s)) = aspect (camera (onResize vp s))"
  "trace (onResize vp s)
     = trace s @ [SetSize (int_or (clientWidth vp) (innerWidth vp))
                    (int_or (clientHeight vp) (innerHeight vp)), UpdateProjectionMatrix]"
  by (simp_all add: onResize_def Let_def)

lemma call_handler_fields [simp]:
  "materialSet (call_handler h vp s) = materialSet s"
  "cube (call_handler h vp s) = cube s"
  "videoTexture (call_handler h vp s) = videoTexture s"
  "video (call_handler h vp s) = video s"
  "last (call_handler h vp s) = last s"
  "window_props (call_handler h vp s) = window_props s"
  "overlay (call_handler h vp s) = overlay s"
  "listeners (call_handler h vp s) = listeners s"
  "raf_pending (call_handler h vp s) = raf_pending s"
  by (cases h; simp add: call_handler_def)+

lemma foldl_handlers:
  assumes "\<And>h a. f (call_handler h vp a) = f a"
  shows "f (foldl (\<lambda>a l. call_handler (l_handler l) vp a) s ls) = f s"
  using assms by (induction ls arbitrary: s) simp_all

lemma dispatch_fields [simp]:
  "materialSet (dispatch tgt ty vp s) = materialSet s"
  "cube (dispatch tgt ty vp s) = cube s"
  "videoTexture (dispatch tgt ty vp s) = videoTexture s"
  "video (dispatch tgt ty vp s) = video s"
  "last (dispatch tgt ty vp s) = last s"
  "window_props (dispatch tgt ty vp s) = window_props s"
  "overlay (dispatch tgt ty vp s) = overlay s"
  "raf_pending (dispatch tgt ty vp s) = raf_pending s"
  unfolding dispatch_def by (subst foldl_handlers; simp)+

lemma setup_when_set: "materialSet s \<Longrightarrow> setupVideoTexture e s = s"
  by (simp add: setupVideoTexture_def)

lemma setup_sets [simp]: "materialSet (setupVideoTexture e s)"
  by (simp add: setupVideoTexture_def Let_def)

lemma hideOverlay_fields [simp]:
  "materialSet (hideOverlay s) = materialSet s"
  "cube (hideOverlay s) = cube s"
  "videoTexture (hideOverlay s) = videoTexture s"
  "video (hideOverlay s) = video s"
  "last (hideOverlay s) = last s"
  "window_props (hideOverlay s) = window_props s"
  "listeners (hideOverlay s) = listeners s"
  "raf_pending (hideOverlay s) = raf_pending s"
  "pending (hideOverlay s) = pending s"
  "trace (hideOverlay s) = trace s"
  by (simp_all add: hideOverlay_def)

lemma hidden_after: "map_of (style (overlay (hideOverlay s))) ''display'' = Some ''none''"
  by (simp add: hideOverlay_def update_conv')

lemma setup_fields [simp]:
  "video (setupVideoTexture e s) = video s"
  "last (setupVideoTexture e s) = last s"
  "window_props (setupVideoTexture e s) = window_props s"
  "listeners (setupVideoTexture e s) = listeners s"
  "raf_pending (setupVideoTexture e s) = raf_pending s"
  "pending (setupVideoTexture e s) = pending s"
  "overlay (setupVideoTexture e s) = overlay s"
  by (simp_all add: setupVideoTexture_def Let_def)

lemma run_callback_fields [simp]:
  "video (run_callback e cb out s) = video s"
  "last (run_callback e cb out s) = last s"
  "window_props (run_callback e cb out s) = window_props s"
  "listeners (run_callback e cb out s) = listeners s"
  "raf_pending (run_callback e cb out s) = raf_pending s"
  "pending (run_callback e cb out s) = pending s"
  by (cases cb; simp)+

lemma animate_result:
  "animate t rs s = Inr
     (s\<lparr>raf_pending := raf_pending s + 1,
        last := t,
        cube := (cube s)\<lparr>rotation_x := rotation_x (cube s) + (t - last s) / 1000 * 0.35,
                          rotation_y := rotation_y (cube s) + (t - last s) / 1000 * 0.6\<rparr>,
        videoTexture := (if 2 \<le> rs then map_option (\<lambda>tx. tx\<lparr>tex_needsUpdate := True\<rparr>) (videoTexture s)
                         else videoTexture s),
        trace := trace s @ [RequestAnimationFrame, Render]\<rparr>)"
  by (cases "videoTexture s") (simp_all add: animate_def touch_texture_def Let_def)

lemma counts_fields [simp]:
  "swaps (tryPlay s) = swaps s"
  "swaps (onResize vp s) = swaps s"
  "swaps (hideOverlay s) = swaps s"
  "retries (onResize vp s) = retries s"
  "retries (hideOverlay s) = retries s"
  "retries (setupVideoTexture e s) = retries s"
  "retries (tryPlay s) = Suc (retries s)"
  by (simp_all add: swaps_def retries_def tryPlay_def onResize_def hideOverlay_def
        setupVideoTexture_def Let_def)

lemma retries_callback [simp]: "retries (run_callback e cb out s) = retries s"
  by (cases cb) (simp_all, simp_all add: retries_def)

section \<open>The script body unfolded\<close>

lemmas body_defs = locate_container_def blank_def setup_renderer_def build_scene_def
  create_video_def create_overlay_def attempt_autoplay_def install_resize_def onResize_def
  start_animation_def expose_debug_def Let_def

lemma script_Inr: "script e = Inr s \<Longrightarrow> three_loaded e \<and>
   s = expose_debug (start_animation e (install_resize e (attempt_autoplay
                (create_overlay (create_video (build_scene (setup_renderer e (locate_container (blank e)))))))))"
  by (auto simp: script_def Let_def split: if_splits)

lemma script_fields:
  assumes "script e = Inr s0"
  shows "pending s0 = [\<lparr>p_origin = Autoplay, on_fulfilled = SetupAndHide,
                         on_rejected = Some InfoAutoplayBlocked\<rparr>]"
    and "listeners s0 = [click_listener, resize_listener]"
    and "map_of (style (overlay s0)) ''display'' = None"
    and "(Body, OverlayEl) \<in> set (appended s0)"
    and "VideoEl \<notin> snd ` set (appended s0)"
    and "\<not> materialSet s0"
    and "videoTexture s0 = None"
    and "map_tex (material (cube s0)) = None"
    and "window_props s0 = debug_globals"
    and "last s0 = performance_now e"
  using script_Inr [OF assms]
  by (auto simp: body_defs click_listener_def resize_listener_def debug_globals_def
           split: option.splits)

lemma script_without_three:
  "\<not> three_loaded e \<Longrightarrow> script e = Inl (ReferenceError ''THREE'', locate_container (blank e))"
  by (simp add: script_def Let_def)

lemma nothing_registered:
  "listeners (locate_container (blank e)) = []" "pending (locate_container (blank e)) = []"
  "window_props (locate_container (blank e)) = []"
  by (simp_all add: locate_container_def blank_def split: option.splits)

section \<open>The sample pages evaluated\<close>

lemmas eval_defs = script_def loaded_def body_defs bare_page_def desktop_def plain_element_def
  CONTAINER_ID_def VIDEO_SRC_def settle_def dispatch_def hears_def call_handler_def tryPlay_def
  hideOverlay_def setupVideoTexture_def animate_def touch_texture_def showVideoURL_def
  pixel_ratio_arg_def math_min_def js_or_def

lemma bare_loaded: "script bare_page = Inr (loaded bare_page)"
  by (simp add: script_def loaded_def bare_page_def)

lemma bare_run: "run bare_page both_succeed (loaded bare_page)
   = Inr (projr (run bare_page both_succeed (loaded bare_page)))"
  by (simp add: eval_defs both_succeed_def)

lemma bare_unset: "\<not> materialSet (loaded bare_page)"
  by (simp add: eval_defs)

lemma bare_no_texture: "videoTexture (loaded bare_page) = None"
  by (simp add: eval_defs)

lemma bare_last: "last (loaded bare_page) = 1000"
  by (simp add: eval_defs)

lemma bare_raf: "raf_pending (loaded bare_page) = 1"
  by (simp add: eval_defs)

lemma bare_dpr: "devicePixelRatio bare_page = Num (Fin 3)"
  by (simp add: bare_page_def)

lemma bare_reject: "run bare_page click_fail_click (loaded bare_page)
   = Inr (projr (run bare_page click_fail_click (loaded bare_page)))"
  by (simp add: eval_defs click_fail_click_def)

lemma bare_success: "run bare_page autoplay_succeeds (loaded bare_page)
   = Inr (projr (run bare_page autoplay_succeeds (loaded bare_page)))"
  by (simp add: eval_defs autoplay_succeeds_def)

lemma no_three: "\<not> three_loaded page_without_three"
  by (simp add: page_without_three_def)

lemma without_three_script:
  "script page_without_three
     = Inl (ReferenceError ''THREE'', locate_container (blank page_without_three))"
  by (simp add: script_def page_without_three_def Let_def)

section \<open>The page after any events\<close>

lemma run_invariant:
  assumes "\<And>s ev s'. P s \<Longrightarrow> step e ev s = Inr s' \<Longrightarrow> P s'"
  shows "P s \<Longrightarrow> run e evs s = Inr s' \<Longrightarrow> P s'"
proof (induction evs arbitrary: s)
  case Nil
  then show ?case by simp
next
  case (Cons ev evs)
  from Cons.prems(2) obtain s1 where s1: "step e ev s = Inr s1" "run e evs s1 = Inr s'"
    by (auto split: sum.splits)
  from assms [OF Cons.prems(1) s1(1)] have "P s1" .
  then show ?case using Cons.IH s1(2) by blast
qed

lemma dispatch_unheard:
  assumes "filter (hears tgt ty) (listeners s) = []"
  shows "dispatch tgt ty vp s = s"
proof -
  have "filter (\<lambda>l. \<not> (hears tgt ty l \<and> l_once l)) (listeners s) = listeners s"
    using assms by (auto simp: filter_empty_conv filter_id_conv)
  with assms show ?thesis by (simp add: dispatch_def)
qed

lemma dispatch_click:
  assumes "listeners s = [click_listener, resize_listener]"
  shows "dispatch OverlayEl ''click'' vp s = tryPlay (s\<lparr>listeners := [resize_listener]\<rparr>)"
  using assms
  by (simp add: dispatch_def hears_def click_listener_def resize_listener_def call_handler_def)

lemma dispatch_resize:
  assumes "listeners s = [click_listener, resize_listener] \<or> listeners s = [resize_listener]"
  shows "dispatch Window ''resize'' vp s = onResize vp s"
proof -
  have keep: "filter (\<lambda>l. \<not> (hears Window ''resize'' l \<and> l_once l)) (listeners s) = listeners s"
    using assms by (auto simp: hears_def click_listener_def resize_listener_def)
  have hit: "filter (hears Window ''resize'') (listeners s) = [resize_listener]"
    using assms by (auto simp: hears_def click_listener_def resize_listener_def)
  show ?thesis
    unfolding dispatch_def keep hit by (simp add: call_handler_def resize_listener_def)
qed

lemma hears_two:
  "hears tgt ty click_listener \<longleftrightarrow> tgt = OverlayEl \<and> ty = ''click''"
  "hears tgt ty resize_listener \<longleftrightarrow> tgt = Window \<and> ty = ''resize''"
  by (auto simp: hears_def click_listener_def resize_listener_def)

lemma dispatch_cases:
  assumes "listeners_ok s"
  shows "dispatch tgt ty vp s =
     (if tgt = OverlayEl \<and> ty = ''click'' \<and> retries s = 0
      then tryPlay (s\<lparr>listeners := [resize_listener]\<rparr>)
      else if tgt = Window \<and> ty = ''resize'' then onResize vp s
      else s)"
proof (cases "retries s = 0")
  case True
  with assms have l: "listeners s = [click_listener, resize_listener]"
    by (auto simp: listeners_ok_def)
  show ?thesis
  proof (cases "tgt = OverlayEl \<and> ty = ''click''")
    case True
    with l \<open>retries s = 0\<close> show ?thesis by (simp add: dispatch_click)
  next
    case False
    show ?thesis
    proof (cases "tgt = Window \<and> ty = ''resize''")
      case True
      with l show ?thesis by (auto simp: dispatch_resize)
    next
      case False
      with \<open>\<not> (tgt = OverlayEl \<and> ty = ''click'')\<close> l
      have "filter (hears tgt ty) (listeners s) = []"
        by (simp add: hears_two)
      with False \<open>\<not> (tgt = OverlayEl \<and> ty = ''click'')\<close> show ?thesis
        by (auto simp: dispatch_unheard)
    qed
  qed
next
  case False
  with assms have l: "listeners s = [resize_listener]"
    by (auto simp: listeners_ok_def)
  show ?thesis
  proof (cases "tgt = Window \<and> ty = ''resize''")
    case True
    with l \<open>retries s \<noteq> 0\<close> show ?thesis by (auto simp: dispatch_resize)
  next
    case False
    with l have "filter (hears tgt ty) (listeners s) = []"
      by (simp add: hears_two)
    with False \<open>retries s \<noteq> 0\<close> show ?thesis
      by (auto simp: dispatch_unheard)
  qed
qed

lemma page_inv_parts [simp]:
  "page_inv (onResize vp s) = page_inv s"
  "page_inv (hideOverlay s) = page_inv s"
  "page_inv (setupVideoTexture e s) = page_inv s"
  by (simp_all add: page_inv_def chains_ok_def listeners_ok_def)

lemma page_inv_click:
  assumes "page_inv s" "retries s = 0"
  shows "page_inv (tryPlay (s\<lparr>listeners := [resize_listener]\<rparr>))"
  using assms
  by (simp add: page_inv_def chains_ok_def listeners_ok_def tryPlay_def retries_def)

lemma page_inv_callback:
  assumes "page_inv s"
  shows "page_inv (run_callback e cb out (s\<lparr>pending := remove1 p (pending s)\<rparr>))"
proof -
  have "list_all P (remove1 p xs)" if "list_all P xs" for P and xs :: "promise list"
    using that by (induction xs) auto
  with assms have "page_inv (s\<lparr>pending := remove1 p (pending s)\<rparr>)"
    by (simp add: page_inv_def chains_ok_def listeners_ok_def retries_def)
  then show ?thesis
    by (cases cb) (simp_all, simp_all add: page_inv_def chains_ok_def listeners_ok_def retries_def)
qed

lemma page_inv_step:
  assumes "page_inv s" "step e ev s = Inr s'"
  shows "page_inv s'"
proof (cases ev)
  case (DomEvent tgt ty vp)
  from assms(1) have "listeners_ok s" by (simp add: page_inv_def)
  then have d: "dispatch tgt ty vp s =
     (if tgt = OverlayEl \<and> ty = ''click'' \<and> retries s = 0
      then tryPlay (s\<lparr>listeners := [resize_listener]\<rparr>)
      else if tgt = Window \<and> ty = ''resize'' then onResize vp s
      else s)"
    by (rule dispatch_cases)
  from assms DomEvent have "s' = dispatch tgt ty vp s" by simp
  with assms(1) show ?thesis
    unfolding d by (simp add: page_inv_click)
next
  case (Frame t rs)
  with assms show ?thesis
    by (auto simp: animate_result page_inv_def chains_ok_def listeners_ok_def retries_def
             split: if_splits)
next
  case (PlaySettled orig out)
  with assms show ?thesis
    by (auto simp: settle_def Let_def page_inv_callback split: option.splits outcome.splits)
next
  case CallShowVideoURL
  with assms show ?thesis
    by (auto simp: showVideoURL_def page_inv_def chains_ok_def listeners_ok_def retries_def
             split: if_splits)
qed

lemma page_inv_run: "page_inv s \<Longrightarrow> run e evs s = Inr s' \<Longrightarrow> page_inv s'"
  using run_invariant [where P = page_inv] page_inv_step by blast

lemma page_inv_script:
  assumes "script e = Inr s0"
  shows "page_inv s0" and "retries s0 = 0"
  using script_Inr [OF assms]
  by (auto simp: body_defs page_inv_def chains_ok_def listeners_ok_def retries_def
        click_listener_def resize_listener_def split: option.splits)

lemma reachable_inv:
  assumes "script e = Inr s0" "run e evs s0 = Inr s"
  shows "page_inv s"
  using assms page_inv_script(1) page_inv_run by blast

lemma settle_never_throws:
  assumes "chains_ok s"
  shows "\<exists>s'. settle e orig out s = Inr s'"
proof (cases "find (\<lambda>p. p_origin p = orig) (pending s)")
  case None
  then show ?thesis by (simp add: settle_def)
next
  case (Some p)
  then have "p \<in> set (pending s)"
    by (auto simp: find_Some_iff)
  with assms have "on_rejected p \<noteq> None"
    by (auto simp: chains_ok_def list_all_iff)
  with Some show ?thesis
    by (auto simp: settle_def Let_def split: outcome.splits)
qed

lemma step_never_throws:
  assumes "page_inv s"
  shows "\<exists>s'. step e ev s = Inr s'"
proof (cases ev)
  case (PlaySettled orig out)
  with assms settle_never_throws [of s e orig out] show ?thesis
    by (simp add: page_inv_def)
qed (simp_all add: animate_result)

lemma run_never_throws: "page_inv s \<Longrightarrow> \<exists>s'. run e evs s = Inr s'"
proof (induction evs arbitrary: s)
  case Nil
  then show ?case by simp
next
  case (Cons ev evs)
  from step_never_throws [OF Cons.prems] obtain s1 where s1: "step e ev s = Inr s1" by blast
  with Cons.prems have "page_inv s1" using page_inv_step by blast
  from Cons.IH [OF this] s1 show ?case by simp
qed

lemma step_window_props: "step e ev s = Inr s' \<Longrightarrow> window_props s' = window_props s"
  by (cases ev)
     (auto simp: animate_result settle_def Let_def showVideoURL_def
           split: if_splits option.splits outcome.splits)

lemma run_window_props: "run e evs s = Inr s' \<Longrightarrow> window_props s' = window_props s"
  using run_invariant [where P = "\<lambda>x. window_props x = window_props s"] step_window_props
  by metis

lemma step_trace_grows: "step e ev s = Inr s' \<Longrightarrow> \<exists>xs. trace s' = trace s @ xs"
proof (cases ev)
  case (DomEvent tgt ty vp)
  have h: "\<exists>xs. trace (call_handler h vp a) = trace a @ xs" for h a
    by (cases h) (simp_all add: call_handler_def tryPlay_def onResize_def Let_def)
  have "\<exists>xs. trace (foldl (\<lambda>a l. call_handler (l_handler l) vp a) a ls) = trace a @ xs"
    for a and ls :: "listener list"
  proof (induction ls arbitrary: a)
    case Nil
    then show ?case by simp
  next
    case (Cons l ls)
    from h [of "l_handler l" a] obtain xs
      where "trace (call_handler (l_handler l) vp a) = trace a @ xs" by blast
    with Cons [of "call_handler (l_handler l) vp a"] show ?case by auto
  qed
  from this [of "s\<lparr>listeners := filter (\<lambda>l. \<not> (hears tgt ty l \<and> l_once l)) (listeners s)\<rparr>"
        "filter (hears tgt ty) (listeners s)"]
  show ?thesis
    if "step e ev s = Inr s'"
    using that DomEvent by (auto simp: dispatch_def)
next
  case (Frame t rs)
  then show ?thesis if "step e ev s = Inr s'"
    using that by (auto simp: animate_result split: if_splits)
next
  case (PlaySettled orig out)
  have "\<exists>xs. trace (run_callback e cb out a) = trace a @ xs" for cb a
    by (cases cb) (simp_all add: setupVideoTexture_def Let_def)
  from this [of _ "s\<lparr>pending := ps\<rparr>" for ps]
  have "\<exists>xs. trace (run_callback e cb out (s\<lparr>pending := ps\<rparr>)) = trace s @ xs" for cb ps
    by simp
  then show ?thesis if "step e ev s = Inr s'"
    using that PlaySettled
    by (auto simp: settle_def Let_def split: option.splits outcome.splits)
next
  case CallShowVideoURL
  then show ?thesis if "step e ev s = Inr s'"
    using that by (auto simp: showVideoURL_def split: if_splits)
qed

lemma run_trace_grows: "run e evs s = Inr s' \<Longrightarrow> \<exists>xs. trace s' = trace s @ xs"
proof (induction evs arbitrary: s)
  case Nil
  then show ?case by simp
next
  case (Cons ev evs)
  then obtain s1 where s1: "step e ev s = Inr s1" "run e evs s1 = Inr s'"
    by (auto split: sum.splits)
  from step_trace_grows [OF s1(1)] Cons.IH [OF s1(2)] show ?case by auto
qed

lemma reject_autoplay:
  assumes "script e = Inr s0"
  shows "step e (PlaySettled Autoplay (Rejected r)) s0
     = Inr (s0\<lparr>pending := [],
               trace := trace s0 @
                 [Console Info [''Autoplay blocked '' @ em_dash @ '' click to play the video.'']]\<rparr>)"
  using script_fields(1) [OF assms] by (simp add: settle_def)

lemma resolve_autoplay:
  assumes "script e = Inr s0"
  shows "step e (PlaySettled Autoplay Resolved) s0
     = Inr (hideOverlay (setupVideoTexture e (s0\<lparr>pending := []\<rparr>)))"
  using script_fields(1) [OF assms] by (simp add: settle_def)

section \<open>C1: the texture is swapped at most once\<close>

lemma run_callback_when_set:
  "materialSet s \<Longrightarrow> materialSet (run_callback e cb out s)"
  "materialSet s \<Longrightarrow> cube (run_callback e cb out s) = cube s"
  "materialSet s \<Longrightarrow> videoTexture (run_callback e cb out s) = videoTexture s"
  by (cases cb; simp add: setup_when_set)+

lemma settle_when_set:
  assumes "materialSet s" "settle e orig out s = Inr s'"
  shows "materialSet s' \<and> cube s' = cube s \<and> videoTexture s' = videoTexture s"
  using assms
  by (auto simp: settle_def Let_def run_callback_when_set split: option.splits outcome.splits)

lemma step_when_set:
  assumes "materialSet s" "step e ev s = Inr s'"
  shows "materialSet s' \<and> material (cube s') = material (cube s)
         \<and> map_option tex_ref (videoTexture s') = map_option tex_ref (videoTexture s)"
proof (cases ev)
  case (DomEvent tgt ty vp)
  with assms show ?thesis by auto
next
  case (Frame t rs)
  with assms show ?thesis
    by (cases "videoTexture s") (auto simp: animate_result split: if_splits)
next
  case (PlaySettled orig out)
  with assms settle_when_set [of s e orig out s'] show ?thesis by simp
next
  case CallShowVideoURL
  with assms show ?thesis by (auto simp: showVideoURL_def split: if_splits)
qed

lemma run_when_set:
  "materialSet s \<Longrightarrow> run e evs s = Inr s' \<Longrightarrow>
     materialSet s' \<and> material (cube s') = material (cube s)
     \<and> map_option tex_ref (videoTexture s') = map_option tex_ref (videoTexture s)"
proof (induction evs arbitrary: s)
  case Nil
  then show ?case by simp
next
  case (Cons ev evs)
  then obtain s1 where s1: "step e ev s = Inr s1" "run e evs s1 = Inr s'"
    by (auto split: sum.splits)
  from step_when_set [OF Cons.prems(1) s1(1)] Cons.IH [OF _ s1(2)]
  show ?case by simp
qed

lemma swaps_call_handler [simp]: "swaps (call_handler h vp s) = swaps s"
  by (cases h) (simp_all add: call_handler_def)

lemma swaps_dispatch [simp]: "swaps (dispatch tgt ty vp s) = swaps s"
proof -
  have a: "swaps (foldl (\<lambda>a l. call_handler (l_handler l) vp a) s0 ls) = swaps s0" for s0 ls
    by (rule foldl_handlers) simp
  have b: "swaps (s\<lparr>listeners := k\<rparr>) = swaps s" for k
    by (simp add: swaps_def)
  show ?thesis unfolding dispatch_def by (simp only: a b)
qed

lemma swaps_setup:
  "swaps (setupVideoTexture e s) = (if materialSet s then swaps s else Suc (swaps s))"
  by (simp add: swaps_def setupVideoTexture_def Let_def)

lemma swap_counted_callback:
  "swap_counted s \<Longrightarrow> swap_counted (run_callback e cb out s)"
  by (cases cb) (simp_all add: swap_counted_def swaps_setup, simp_all add: swaps_def)

lemma swap_counted_step:
  assumes "swap_counted s" "step e ev s = Inr s'"
  shows "swap_counted s'"
proof (cases ev)
  case (DomEvent tgt ty vp)
  with assms show ?thesis by (auto simp: swap_counted_def)
next
  case (Frame t rs)
  with assms show ?thesis
    by (auto simp: animate_result swap_counted_def swaps_def split: if_splits)
next
  case (PlaySettled orig out)
  have "swap_counted (s\<lparr>pending := ps\<rparr>)" for ps
    using assms(1) by (simp add: swap_counted_def swaps_def)
  with assms PlaySettled show ?thesis
    by (auto simp: settle_def Let_def swap_counted_callback
             split: option.splits outcome.splits)
next
  case CallShowVideoURL
  with assms show ?thesis
    by (auto simp: showVideoURL_def swap_counted_def swaps_def split: if_splits)
qed

lemma swap_counted_run:
  "swap_counted s \<Longrightarrow> run e evs s = Inr s' \<Longrightarrow> swap_counted s'"
proof (induction evs arbitrary: s)
  case Nil
  then show ?case by simp
next
  case (Cons ev evs)
  then obtain s1 where "step e ev s = Inr s1" "run e evs s1 = Inr s'"
    by (auto split: sum.splits)
  with Cons show ?case using swap_counted_step by blast
qed

lemma swap_counted_script: "script e = Inr s \<Longrightarrow> swap_counted s \<and> \<not> materialSet s"
  by (drule script_Inr)
     (auto simp: body_defs swap_counted_def swaps_def split: option.splits)

lemma setup_twice: "setupVideoTexture e (setupVideoTexture e s) = setupVideoTexture e s"
  by (simp add: setup_when_set)

lemma setup_many: "0 < n \<Longrightarrow> (setupVideoTexture e ^^ n) s = setupVideoTexture e s"
proof (induction n)
  case 0
  then show ?case by simp
next
  case (Suc n)
  then show ?case by (cases n) (simp_all add: setup_twice)
qed

text \<open>
  C1. \<open>setupVideoTexture\<close> swaps the cube's material for one that maps a fresh video texture
  when \<open>materialSet\<close> is still false, and sets the flag; called with the flag set it returns
  the state as it is, so any number of calls is one call. Once the flag is set, no sequence
  of events (resolved or rejected \<open>play()\<close> promises, clicks, resizes, frames) changes the
  flag, the cube's material or the identity of the texture. From the loaded page, whatever
  the events, at most one video texture is ever built, and exactly one once the flag is set.
\<close>

theorem texture_swapped_at_most_once:
  "(\<not> materialSet s \<longrightarrow>
      (\<exists>tx. videoTexture (setupVideoTexture e s) = Some tx
          \<and> map_tex (material (cube (setupVideoTexture e s))) = Some (tex_ref tx)
          \<and> mat_ref (material (cube (setupVideoTexture e s))) = next_ref s + 1)
      \<and> materialSet (setupVideoTexture e s))
   \<and> (materialSet u \<longrightarrow> setupVideoTexture e u = u)
   \<and> (0 < n \<longrightarrow> (setupVideoTexture e ^^ n) s = setupVideoTexture e s)
   \<and> (materialSet u \<and> run e evs u = Inr u' \<longrightarrow>
        materialSet u' \<and> material (cube u') = material (cube u)
        \<and> map_option tex_ref (videoTexture u') = map_option tex_ref (videoTexture u))
   \<and> (script e = Inr s0 \<and> run e evs0 s0 = Inr s1 \<longrightarrow> swaps s1 \<le> 1 \<and> (materialSet s1 \<longleftrightarrow> swaps s1 = 1))"
proof -
  have a: "\<not> materialSet s \<longrightarrow>
      (\<exists>tx. videoTexture (setupVideoTexture e s) = Some tx
          \<and> map_tex (material (cube (setupVideoTexture e s))) = Some (tex_ref tx)
          \<and> mat_ref (material (cube (setupVideoTexture e s))) = next_ref s + 1)
      \<and> materialSet (setupVideoTexture e s)"
    by (simp add: setupVideoTexture_def Let_def)
  have b: "script e = Inr s0 \<and> run e evs0 s0 = Inr s1 \<longrightarrow> swaps s1 \<le> 1 \<and> (materialSet s1 \<longleftrightarrow> swaps s1 = 1)"
  proof
    assume h: "script e = Inr s0 \<and> run e evs0 s0 = Inr s1"
    then have "swap_counted s1"
      using swap_counted_script swap_counted_run by blast
    then show "swaps s1 \<le> 1 \<and> (materialSet s1 \<longleftrightarrow> swaps s1 = 1)"
      by (simp add: swap_counted_def split: if_splits)
  qed
  from a b show ?thesis
    using setup_when_set setup_many run_when_set by blast
qed

lemma bare_swaps: "swaps (projr (run bare_page both_succeed (loaded bare_page))) = 1"
  by (simp add: eval_defs both_succeed_def swaps_def)

lemma bare_frame: "run bare_page [Frame 1016 4] (setupVideoTexture bare_page (loaded bare_page))
   = Inr (projr (run bare_page [Frame 1016 4] (setupVideoTexture bare_page (loaded bare_page))))"
  by (simp add: animate_result)

theorem texture_swapped_at_most_once_witness:
  "\<not> materialSet (loaded bare_page)
   \<and> materialSet (setupVideoTexture bare_page (loaded bare_page))
   \<and> (setupVideoTexture bare_page ^^ 3) (loaded bare_page)
       = setupVideoTexture bare_page (loaded bare_page)
   \<and> material (cube (projr (run bare_page [Frame 1016 4]
          (setupVideoTexture bare_page (loaded bare_page)))))
       = material (cube (setupVideoTexture bare_page (loaded bare_page)))
   \<and> script bare_page = Inr (loaded bare_page)
   \<and> run bare_page both_succeed (loaded bare_page)
       = Inr (projr (run bare_page both_succeed (loaded bare_page)))
   \<and> swaps (projr (run bare_page both_succeed (loaded bare_page))) = 1
   \<and> materialSet (projr (run bare_page both_succeed (loaded bare_page)))"
  using texture_swapped_at_most_once
    [where s = "loaded bare_page" and e = bare_page
       and u = "setupVideoTexture bare_page (loaded bare_page)" and n = 3
       and evs = "[Frame 1016 4]"
       and u' = "projr (run bare_page [Frame 1016 4]
                   (setupVideoTexture bare_page (loaded bare_page)))"
       and ?s0.0 = "loaded bare_page" and evs0 = both_succeed
       and ?s1.0 = "projr (run bare_page both_succeed (loaded bare_page))"]
    bare_loaded bare_run bare_swaps bare_unset bare_frame
  by simp

section \<open>C2: the container is looked up or created\<close>

lemma count_id_Cons [simp]:
  "count_id i [] = 0"
  "count_id i (x # xs) = (if elem_id x = i then Suc (count_id i xs) else count_id i xs)"
  "count_id i (xs @ ys) = count_id i xs + count_id i ys"
  by (simp_all add: count_id_def)

lemma getElementById_None: "getElementById es i = None \<longleftrightarrow> count_id i es = 0"
  by (induction es) auto

lemma getElementById_Some:
  "getElementById es i = Some k \<Longrightarrow> k < length es \<and> elem_id (es ! k) = i \<and> 0 < count_id i es"
  by (induction es arbitrary: k) (auto split: if_splits)

lemma located_absent:
  assumes "getElementById (page0 e) CONTAINER_ID = None"
  shows "new_div (loaded e)
           = Some \<lparr>tag = ''div'', elem_id = CONTAINER_ID,
                   style = [(''position'', ''fixed''), (''inset'', ''0''), (''zIndex'', ''0'')],
                   innerText = []\<rparr>"
    and "container (loaded e) = NewDiv"
    and "(Body, NewDiv) \<in> set (appended (loaded e))"
    and "count_list (trace (loaded e)) (CreateElement ''div'') = 1"
    and "count_id CONTAINER_ID (document_elements (loaded e)) = 1"
  using assms getElementById_None [of "page0 e" CONTAINER_ID]
  by (cases "three_loaded e";
      simp add: loaded_def script_def body_defs document_elements_def node_element_def
        List.map_filter_simps CONTAINER_ID_def)+

lemma located_present:
  assumes "getElementById (page0 e) CONTAINER_ID = Some i"
  shows "new_div (loaded e) = None"
    and "container (loaded e) = PageNode i"
    and "count_list (trace (loaded e)) (CreateElement ''div'') = 0"
    and "count_id CONTAINER_ID (document_elements (loaded e)) = count_id CONTAINER_ID (page0 e)"
  using assms
  by (cases "three_loaded e";
      simp add: loaded_def script_def body_defs document_elements_def node_element_def
        List.map_filter_simps CONTAINER_ID_def)+

lemma sample_lookups:
  "getElementById (page0 bare_page) CONTAINER_ID = None"
  "getElementById (page0 prepared_page) CONTAINER_ID = Some 1"
  "getElementById (page0 twin_page) CONTAINER_ID = Some 0"
  "count_id CONTAINER_ID (page0 prepared_page) = 1"
  "count_id CONTAINER_ID (page0 twin_page) = 2"
  by (simp_all add: bare_page_def prepared_page_def twin_page_def plain_element_def
        CONTAINER_ID_def)

text \<open>
  C2, as amended. Where the page has no element with the id \<open>three-container\<close>, the script
  creates one \<open>div\<close> with that id and appends it to the body, and it is the container. Where
  the page has one, the script creates none and the container is the first of them. Either
  way the script creates at most one, and the document ends with as many elements of that
  id as the page had, or one where it had none: exactly one whenever the page had at most
  one. This holds whether or not the script then stops for lack of \<open>THREE\<close>.
\<close>

theorem container_located_or_created:
  "(getElementById (page0 e) CONTAINER_ID = None \<longrightarrow>
      new_div (loaded e)
        = Some \<lparr>tag = ''div'', elem_id = CONTAINER_ID,
                style = [(''position'', ''fixed''), (''inset'', ''0''), (''zIndex'', ''0'')],
                innerText = []\<rparr>
      \<and> container (loaded e) = NewDiv
      \<and> (Body, NewDiv) \<in> set (appended (loaded e))
      \<and> count_list (trace (loaded e)) (CreateElement ''div'') = 1
      \<and> count_id CONTAINER_ID (document_elements (loaded e)) = 1)
   \<and> (getElementById (page0 e) CONTAINER_ID = Some i \<longrightarrow>
      i < length (page0 e) \<and> elem_id (page0 e ! i) = CONTAINER_ID
      \<and> new_div (loaded e) = None
      \<and> container (loaded e) = PageNode i
      \<and> count_list (trace (loaded e)) (CreateElement ''div'') = 0
      \<and> count_id CONTAINER_ID (document_elements (loaded e)) = count_id CONTAINER_ID (page0 e))
   \<and> count_id CONTAINER_ID (document_elements (loaded e))
        = max 1 (count_id CONTAINER_ID (page0 e))
   \<and> (count_id CONTAINER_ID (page0 e) \<le> 1 \<longrightarrow>
        count_id CONTAINER_ID (document_elements (loaded e)) = 1)"
proof -
  have total: "count_id CONTAINER_ID (document_elements (loaded e))
        = max 1 (count_id CONTAINER_ID (page0 e))"
  proof (cases "getElementById (page0 e) CONTAINER_ID")
    case None
    with located_absent(5) [OF None] show ?thesis
      by (simp add: getElementById_None)
  next
    case (Some k)
    with located_present(4) [OF Some] getElementById_Some [OF Some] show ?thesis
      by simp
  qed
  then have "count_id CONTAINER_ID (page0 e) \<le> 1 \<longrightarrow>
        count_id CONTAINER_ID (document_elements (loaded e)) = 1"
    by auto
  with total show ?thesis
    using located_absent [of e] located_present [of e i]
      getElementById_Some [of "page0 e" CONTAINER_ID i]
    by simp
qed

theorem container_located_or_created_witness:
  "getElementById (page0 bare_page) CONTAINER_ID = None
   \<and> container (loaded bare_page) = NewDiv
   \<and> count_id CONTAINER_ID (document_elements (loaded bare_page)) = 1
   \<and> getElementById (page0 prepared_page) CONTAINER_ID = Some 1
   \<and> container (loaded prepared_page) = PageNode 1
   \<and> new_div (loaded prepared_page) = None
   \<and> count_id CONTAINER_ID (page0 prepared_page) \<le> 1
   \<and> count_id CONTAINER_ID (document_elements (loaded prepared_page)) = 1"
  using container_located_or_created [of bare_page] container_located_or_created [of prepared_page 1]
    sample_lookups
  by simp

text \<open>
  A page on which two elements carry the id: the script takes the first as container,
  creates none, and the document still has two.
\<close>

theorem twin_containers_counterexample:
  "getElementById (page0 twin_page) CONTAINER_ID = Some 0
   \<and> container (loaded twin_page) = PageNode 0
   \<and> new_div (loaded twin_page) = None
   \<and> count_id CONTAINER_ID (document_elements (loaded twin_page)) = 2"
  using located_present [of twin_page 0] sample_lookups by simp

section \<open>The quotient of two integers as a double\<close>

lemma bits_bounds: "0 < n \<Longrightarrow> 2 ^ (bits n - 1) \<le> n \<and> n < 2 ^ bits n"
proof (induction n rule: bits.induct)
  case (1 n)
  show ?case
  proof (cases "n div 2 = 0")
    case True
    with 1 have "n = 1" by (simp add: div_eq_0_iff)
    then show ?thesis by (simp add: bits.simps)
  next
    case False
    with 1 have ih: "2 ^ (bits (n div 2) - 1) \<le> n div 2" "n div 2 < 2 ^ bits (n div 2)"
      by auto
    from False have pos: "0 < bits (n div 2)" by (simp add: bits.simps)
    have b: "bits n = Suc (bits (n div 2))" using 1 by (simp add: bits.simps)
    from ih(1) have "2 * 2 ^ (bits (n div 2) - 1) \<le> n" by arith
    moreover from pos have "2 * (2::nat) ^ (bits (n div 2) - 1) = 2 ^ bits (n div 2)"
      by (cases "bits (n div 2)") simp_all
    moreover from ih(2) have "n < 2 * 2 ^ bits (n div 2)" by arith
    ultimately show ?thesis using b by simp
  qed
qed

lemma round_even_near:
  assumes "0 < den"
  shows "\<bar>real_of_int (round_even num den) - real_of_int num / real_of_int den\<bar> \<le> 1 / 2"
proof -
  define q r where "q = num div den" and "r = num mod den"
  have n: "num = q * den + r" by (simp add: q_def r_def)
  have r: "0 \<le> r" "r < den" using assms by (simp_all add: r_def)
  have y: "real_of_int num / real_of_int den = real_of_int q + real_of_int r / real_of_int den"
    using assms by (simp add: n field_simps)
  have f: "0 \<le> real_of_int r / real_of_int den" "real_of_int r / real_of_int den < 1"
    using r assms by simp_all
  consider "2 * r < den" | "den < 2 * r" | "2 * r = den" by linarith
  then show ?thesis
  proof cases
    case 1
    then have "round_even num den = q" by (simp add: round_even_def q_def r_def Let_def)
    moreover from 1 assms have "real_of_int r / real_of_int den < 1 / 2"
      by (auto simp: field_simps)
    ultimately show ?thesis using y f by simp
  next
    case 2
    then have "round_even num den = q + 1" by (simp add: round_even_def q_def r_def Let_def)
    moreover from 2 assms have "1 / 2 < real_of_int r / real_of_int den"
      by (auto simp: field_simps)
    ultimately show ?thesis using y f by simp
  next
    case 3
    then have "round_even num den = q \<or> round_even num den = q + 1"
      by (simp add: round_even_def q_def r_def Let_def)
    moreover from 3 assms have "real_of_int r / real_of_int den = 1 / 2"
      by (auto simp: field_simps)
    ultimately show ?thesis using y by auto
  qed
qed

lemma div_at_least: "0 < den \<Longrightarrow> lo * den \<le> num \<Longrightarrow> lo \<le> num div (den::int)"
proof -
  assume d: "0 < den" and l: "lo * den \<le> num"
  from l d have "(lo * den) div den \<le> num div den" by (rule zdiv_mono1)
  with d show ?thesis by simp
qed

lemma div_below: "0 < den \<Longrightarrow> num < hi * den \<Longrightarrow> num div (den::int) < hi"
proof -
  assume d: "0 < den" and l: "num < hi * den"
  have "num = num div den * den + num mod den" by simp
  moreover from d have "0 \<le> num mod den" by simp
  ultimately have "num div den * den \<le> num" by linarith
  with l have "num div den * den < hi * den" by linarith
  with d show ?thesis by (simp add: mult_less_cancel_right)
qed

lemma round_even_between:
  assumes "0 < den" "lo * den \<le> num" "num < hi * den"
  shows "lo \<le> round_even num den \<and> round_even num den \<le> hi"
proof -
  have "lo \<le> num div den" using assms by (simp add: div_at_least)
  moreover have "num div den < hi" using assms by (simp add: div_below)
  moreover have "round_even num den = num div den \<or> round_even num den = num div den + 1"
    by (simp add: round_even_def Let_def)
  ultimately show ?thesis by auto
qed


lemma two_powr_nat: "(2::real) ^ n = 2 powr real n"
  by (simp add: powr_realpow)

lemma two_powr_int:
  "0 \<le> k \<Longrightarrow> (2::real) ^ nat k = 2 powr real_of_int k"
  "k < 0 \<Longrightarrow> (2::real) ^ nat (- k) = 2 powr (- real_of_int k)"
  by (simp_all add: two_powr_nat)

lemma bits_powr:
  assumes "0 < (a::int)"
  shows "2 powr (real (bits (nat a)) - 1) \<le> real_of_int a"
    and "real_of_int a < 2 powr real (bits (nat a))"
proof -
  from assms have n: "0 < nat a" by simp
  from bits_bounds [OF n] have b: "2 ^ (bits (nat a) - 1) \<le> nat a" "nat a < 2 ^ bits (nat a)"
    by simp_all
  from n have pos: "0 < bits (nat a)" by (simp add: bits.simps)
  have ra: "real (nat a) = real_of_int a" using assms by simp
  from b(1) have "real (2 ^ (bits (nat a) - 1)) \<le> real (nat a)" by (rule of_nat_mono)
  then have "2 powr real (bits (nat a) - 1) \<le> real_of_int a"
    by (simp only: ra of_nat_power of_nat_numeral two_powr_nat)
  moreover from pos have "real (bits (nat a) - 1) = real (bits (nat a)) - 1" by simp
  ultimately show "2 powr (real (bits (nat a)) - 1) \<le> real_of_int a" by simp
  from b(2) have "real (nat a) < real (2 ^ bits (nat a))" by (simp only: of_nat_less_iff)
  then show "real_of_int a < 2 powr real (bits (nat a))"
    by (simp only: ra of_nat_power of_nat_numeral two_powr_nat)
qed

lemma exponent_brackets:
  assumes "0 < a" "0 < b"
  shows "2 powr real_of_int (exponent a b) * real_of_int b \<le> real_of_int a"
    and "real_of_int a < 2 powr (real_of_int (exponent a b) + 1) * real_of_int b"
proof -
  define d where "d = int (bits (nat a)) - int (bits (nat b))"
  define c where "c = (if 0 \<le> d then b * 2 ^ nat d \<le> a else b \<le> a * 2 ^ nat (- d))"
  define na nb where "na = real (bits (nat a))" and "nb = real (bits (nat b))"
  have e: "exponent a b = (if c then d else d - 1)"
    by (simp add: exponent_def d_def c_def Let_def)
  have rd: "real_of_int d = na - nb"
    by (simp add: d_def na_def nb_def)
  have ra: "0 < real_of_int a" and rb: "0 < real_of_int b" using assms by simp_all
  have a1: "2 powr (na - 1) \<le> real_of_int a" and a2: "real_of_int a < 2 powr na"
    using bits_powr [OF assms(1)] by (simp_all add: na_def)
  have b1: "2 powr (nb - 1) \<le> real_of_int b" and b2: "real_of_int b < 2 powr nb"
    using bits_powr [OF assms(2)] by (simp_all add: nb_def)
  have up: "real_of_int a < 2 powr (real_of_int d + 1) * real_of_int b"
  proof -
    have "2 powr na = 2 powr (real_of_int d + 1) * 2 powr (nb - 1)"
      by (simp add: rd powr_add [symmetric])
    also have "\<dots> \<le> 2 powr (real_of_int d + 1) * real_of_int b"
      using b1 by (rule mult_left_mono) simp
    finally show ?thesis using a2 by linarith
  qed
  have low: "2 powr (real_of_int d - 1) * real_of_int b < real_of_int a"
  proof -
    have "2 powr (real_of_int d - 1) * real_of_int b < 2 powr (real_of_int d - 1) * 2 powr nb"
      using b2 by (rule mult_strict_left_mono) simp
    also have "\<dots> = 2 powr (na - 1)"
      by (simp add: rd powr_add [symmetric])
    finally show ?thesis using a1 by linarith
  qed
  have cc: "c \<longleftrightarrow> 2 powr real_of_int d * real_of_int b \<le> real_of_int a"
  proof (cases "0 \<le> d")
    case True
    then have "c \<longleftrightarrow> real_of_int (b * 2 ^ nat d) \<le> real_of_int a"
      unfolding c_def by (simp only: if_True of_int_le_iff)
    also have "real_of_int (b * 2 ^ nat d) = 2 powr real_of_int d * real_of_int b"
      using True by (simp add: two_powr_int)
    finally show ?thesis .
  next
    case False
    then have d: "d < 0" by simp
    from False have "c \<longleftrightarrow> real_of_int b \<le> real_of_int (a * 2 ^ nat (- d))"
      unfolding c_def by (simp only: if_False of_int_le_iff)
    also have "real_of_int (a * 2 ^ nat (- d)) = real_of_int a * 2 powr (- real_of_int d)"
      using d by (simp add: two_powr_int)
    also have "real_of_int b \<le> real_of_int a * 2 powr (- real_of_int d)
        \<longleftrightarrow> real_of_int b * 2 powr real_of_int d
            \<le> real_of_int a * 2 powr (- real_of_int d) * 2 powr real_of_int d"
      by (simp only: mult_le_cancel_right_pos powr_gt_zero)
    also have "real_of_int a * 2 powr (- real_of_int d) * 2 powr real_of_int d = real_of_int a"
      by (simp add: powr_minus)
    finally show ?thesis by (simp add: mult.commute)
  qed
  show "2 powr real_of_int (exponent a b) * real_of_int b \<le> real_of_int a"
  proof (cases c)
    case True
    with e cc show ?thesis by simp
  next
    case False
    with e low show ?thesis by simp
  qed
  show "real_of_int a < 2 powr (real_of_int (exponent a b) + 1) * real_of_int b"
  proof (cases c)
    case True
    with e up show ?thesis by simp
  next
    case False
    with e cc show ?thesis by simp
  qed
qed


lemma div_double_mantissa:
  assumes "0 < a" "0 < b"
  defines "s \<equiv> 2 powr real_of_int (52 - exponent a b)"
  obtains m :: int and j :: nat where
    "div_double a b = real_of_int m / s"
    "\<bar>real_of_int m - real_of_int a * s / real_of_int b\<bar> \<le> 1 / 2"
    "2 ^ 52 \<le> m" "m \<le> 2 ^ 53"
    "2 ^ 52 * real_of_int b \<le> real_of_int a * s"
    "div_double a b = real_of_int m / 2 ^ j \<or> div_double a b = real_of_int m * 2 ^ j"
proof -
  define k where "k = 52 - exponent a b"
  have s: "s = 2 powr real_of_int k" by (simp add: s_def k_def)
  have spos: "0 < s" by (simp add: s)
  have rb: "0 < real_of_int b" using assms by simp
  have es: "2 powr real_of_int (exponent a b) * s = 2 ^ 52"
  proof -
    have "2 powr real_of_int (exponent a b) * s = 2 powr (real 52)"
      unfolding s k_def by (simp add: powr_add [symmetric])
    then show ?thesis by (simp only: two_powr_nat [symmetric])
  qed
  have es1: "2 powr (real_of_int (exponent a b) + 1) * s = 2 ^ 53"
  proof -
    have "2 powr (real_of_int (exponent a b) + 1) * s = 2 powr (real 53)"
      unfolding s k_def by (simp add: powr_add [symmetric])
    then show ?thesis by (simp only: two_powr_nat [symmetric])
  qed
  have f1: "2 ^ 52 * real_of_int b \<le> real_of_int a * s"
  proof -
    from exponent_brackets(1) [OF assms(1,2)] spos
    have "2 powr real_of_int (exponent a b) * real_of_int b * s \<le> real_of_int a * s"
      by (simp only: mult_le_cancel_right_pos)
    moreover have "2 powr real_of_int (exponent a b) * real_of_int b * s
        = (2 powr real_of_int (exponent a b) * s) * real_of_int b"
      by (simp only: ac_simps)
    ultimately show ?thesis by (simp only: es)
  qed
  have f2: "real_of_int a * s < 2 ^ 53 * real_of_int b"
  proof -
    from exponent_brackets(2) [OF assms(1,2)] spos
    have "real_of_int a * s < 2 powr (real_of_int (exponent a b) + 1) * real_of_int b * s"
      by (simp only: mult_less_cancel_right_pos)
    moreover have "2 powr (real_of_int (exponent a b) + 1) * real_of_int b * s
        = (2 powr (real_of_int (exponent a b) + 1) * s) * real_of_int b"
      by (simp only: ac_simps)
    ultimately show ?thesis by (simp only: es1)
  qed
  have sg: "sgn a * sgn b = 1" "a \<noteq> 0" "\<bar>a\<bar> = a" "\<bar>b\<bar> = b" using assms by simp_all
  show ?thesis
  proof (cases "0 \<le> k")
    case True
    define j where "j = nat k"
    define m where "m = round_even (a * 2 ^ j) b"
    have sj: "s = 2 ^ j" using True by (simp add: s j_def two_powr_int)
    have x: "div_double a b = real_of_int m / 2 ^ j"
      using True sg by (simp add: div_double_def Let_def k_def j_def m_def)
    have "real_of_int (2 ^ 52 * b) \<le> real_of_int (a * 2 ^ j)"
      using f1 by (simp add: sj)
    then have lo: "2 ^ 52 * b \<le> a * 2 ^ j" by (simp only: of_int_le_iff)
    have "real_of_int (a * 2 ^ j) < real_of_int (2 ^ 53 * b)"
      using f2 by (simp add: sj)
    then have hi: "a * 2 ^ j < 2 ^ 53 * b" by (simp only: of_int_less_iff)
    from round_even_between [OF assms(2) lo hi] have mb: "2 ^ 52 \<le> m" "m \<le> 2 ^ 53"
      by (simp_all add: m_def)
    from round_even_near [OF assms(2), of "a * 2 ^ j"]
    have near: "\<bar>real_of_int m - real_of_int a * s / real_of_int b\<bar> \<le> 1 / 2"
      by (simp add: m_def sj)
    from x have "div_double a b = real_of_int m / s" by (simp add: sj)
    with near mb f1 x that show ?thesis by blast
  next
    case False
    then have kn: "k < 0" by simp
    define j where "j = nat (- k)"
    define m where "m = round_even a (b * 2 ^ j)"
    have sj: "s = 1 / 2 ^ j" using kn by (simp add: s j_def two_powr_int powr_minus divide_simps)
    have den: "0 < b * 2 ^ j" using assms by simp
    have x: "div_double a b = real_of_int m * 2 ^ j"
      using False sg by (simp add: div_double_def Let_def k_def j_def m_def)
    have "real_of_int (2 ^ 52 * (b * 2 ^ j)) \<le> real_of_int a"
      using f1 by (simp add: sj field_simps)
    then have lo: "2 ^ 52 * (b * 2 ^ j) \<le> a" by (simp only: of_int_le_iff)
    have "real_of_int a < real_of_int (2 ^ 53 * (b * 2 ^ j))"
      using f2 by (simp add: sj field_simps)
    then have hi: "a < 2 ^ 53 * (b * 2 ^ j)" by (simp only: of_int_less_iff)
    from round_even_between [OF den lo hi] have mb: "2 ^ 52 \<le> m" "m \<le> 2 ^ 53"
      by (simp_all add: m_def)
    have "real_of_int a / real_of_int (b * 2 ^ j) = real_of_int a * s / real_of_int b"
      by (simp add: sj)
    with round_even_near [OF den, of a]
    have near: "\<bar>real_of_int m - real_of_int a * s / real_of_int b\<bar> \<le> 1 / 2"
      by (simp only: m_def)
    from x have "div_double a b = real_of_int m / s" by (simp add: sj)
    with near mb f1 x that show ?thesis by blast
  qed
qed

lemma div_double_pos_error:
  assumes "0 < a" "0 < b"
  shows "\<bar>div_double a b - real_of_int a / real_of_int b\<bar>
           \<le> real_of_int a / real_of_int b / 2 ^ 53"
proof -
  define s where "s = 2 powr real_of_int (52 - exponent a b)"
  have spos: "0 < s" by (simp add: s_def)
  have rb: "0 < real_of_int b" using assms by simp
  from div_double_mantissa [OF assms] obtain m :: int where
    x: "div_double a b = real_of_int m / s"
    and near: "\<bar>real_of_int m - real_of_int a * s / real_of_int b\<bar> \<le> 1 / 2"
    and f1: "2 ^ 52 * real_of_int b \<le> real_of_int a * s"
    unfolding s_def by blast
  have "div_double a b - real_of_int a / real_of_int b
      = (real_of_int m - real_of_int a * s / real_of_int b) / s"
    using spos rb by (simp add: x field_simps)
  then have "\<bar>div_double a b - real_of_int a / real_of_int b\<bar>
      = \<bar>real_of_int m - real_of_int a * s / real_of_int b\<bar> / s"
    using spos by (simp add: abs_divide)
  also have "\<dots> \<le> (1 / 2) / s"
    using near by (rule divide_right_mono) (use spos in simp)
  also have "\<dots> \<le> real_of_int a / real_of_int b / 2 ^ 53"
  proof -
    from f1 rb have "2 ^ 52 \<le> real_of_int a * s / real_of_int b"
      by (simp add: pos_le_divide_eq)
    then have "2 ^ 52 / s \<le> real_of_int a / real_of_int b"
      using spos by (simp add: pos_divide_le_eq mult.commute mult.left_commute)
    then have "2 ^ 52 / s / 2 ^ 53 \<le> real_of_int a / real_of_int b / 2 ^ 53"
      by (simp add: divide_right_mono)
    moreover have "(2::real) ^ 52 / s / 2 ^ 53 = (1 / 2) / s"
      by simp
    ultimately show ?thesis by simp
  qed
  finally show ?thesis .
qed


lemma div_double_signs:
  assumes "w \<noteq> 0" "h \<noteq> 0"
  shows "div_double w h = real_of_int (sgn w * sgn h) * div_double \<bar>w\<bar> \<bar>h\<bar>"
  using assms by (simp add: div_double_def Let_def)

lemma div_double_zero: "div_double 0 h = 0"
  by (simp add: div_double_def Let_def)

lemma quotient_signs:
  assumes "w \<noteq> 0" "h \<noteq> 0"
  shows "real_of_int w / real_of_int h
     = real_of_int (sgn w * sgn h) * (real_of_int \<bar>w\<bar> / real_of_int \<bar>h\<bar>)"
  using assms by (auto simp: sgn_if abs_if)

lemma div_double_error:
  assumes "h \<noteq> 0"
  shows "\<bar>div_double w h - real_of_int w / real_of_int h\<bar>
           \<le> \<bar>real_of_int w / real_of_int h\<bar> / 2 ^ 53"
proof (cases "w = 0")
  case True
  then show ?thesis by (simp add: div_double_zero)
next
  case False
  define g where "g = real_of_int (sgn w * sgn h)"
  have g: "\<bar>g\<bar> = 1" using False assms by (auto simp: g_def sgn_if)
  have pos: "0 < \<bar>w\<bar>" "0 < \<bar>h\<bar>" using False assms by simp_all
  have "div_double w h - real_of_int w / real_of_int h
      = g * (div_double \<bar>w\<bar> \<bar>h\<bar> - real_of_int \<bar>w\<bar> / real_of_int \<bar>h\<bar>)"
    unfolding g_def
    by (simp only: div_double_signs [OF False assms] quotient_signs [OF False assms]
          right_diff_distrib)
  then have "\<bar>div_double w h - real_of_int w / real_of_int h\<bar>
      = \<bar>div_double \<bar>w\<bar> \<bar>h\<bar> - real_of_int \<bar>w\<bar> / real_of_int \<bar>h\<bar>\<bar>"
    using g by (simp add: abs_mult)
  also have "\<dots> \<le> real_of_int \<bar>w\<bar> / real_of_int \<bar>h\<bar> / 2 ^ 53"
    using div_double_pos_error [OF pos] .
  also have "real_of_int \<bar>w\<bar> / real_of_int \<bar>h\<bar> = \<bar>real_of_int w / real_of_int h\<bar>"
    by simp
  finally show ?thesis .
qed

lemma div_double_grid:
  assumes "h \<noteq> 0"
  shows "\<exists>(m::int) (j::nat). 0 \<le> m \<and> m \<le> 2 ^ 53
     \<and> (\<bar>div_double w h\<bar> = real_of_int m / 2 ^ j \<or> \<bar>div_double w h\<bar> = real_of_int m * 2 ^ j)"
proof (cases "w = 0")
  case True
  have "0 \<le> (0::int) \<and> (0::int) \<le> 2 ^ 53
     \<and> (\<bar>div_double w h\<bar> = real_of_int 0 / 2 ^ 0 \<or> \<bar>div_double w h\<bar> = real_of_int 0 * 2 ^ 0)"
    using True by (simp add: div_double_zero)
  then show ?thesis by blast
next
  case False
  have pos: "0 < \<bar>w\<bar>" "0 < \<bar>h\<bar>" using False assms by simp_all
  from div_double_mantissa [OF pos] obtain m :: int and j :: nat where
    mb: "2 ^ 52 \<le> m" "m \<le> 2 ^ 53"
    and x: "div_double \<bar>w\<bar> \<bar>h\<bar> = real_of_int m / 2 ^ j
            \<or> div_double \<bar>w\<bar> \<bar>h\<bar> = real_of_int m * 2 ^ j"
    by blast
  from mb have m0: "0 \<le> m" by simp
  have "\<bar>real_of_int (sgn w * sgn h)\<bar> = 1" using False assms by (auto simp: sgn_if)
  then have "\<bar>div_double w h\<bar> = \<bar>div_double \<bar>w\<bar> \<bar>h\<bar>\<bar>"
    by (simp add: div_double_signs [OF False assms] abs_mult)
  moreover from x m0 have "0 \<le> div_double \<bar>w\<bar> \<bar>h\<bar>" by auto
  ultimately have "\<bar>div_double w h\<bar> = div_double \<bar>w\<bar> \<bar>h\<bar>" by simp
  with x m0 mb(2) show ?thesis by metis
qed

lemma js_div_finite:
  assumes "h \<noteq> 0"
  shows "\<exists>x (m::int) (j::nat). js_div w h = Fin x
     \<and> \<bar>x - real_of_int w / real_of_int h\<bar> \<le> \<bar>real_of_int w / real_of_int h\<bar> / 2 ^ 53
     \<and> 0 \<le> m \<and> m \<le> 2 ^ 53
     \<and> (\<bar>x\<bar> = real_of_int m / 2 ^ j \<or> \<bar>x\<bar> = real_of_int m * 2 ^ j)"
  using assms div_double_error [OF assms, of w] div_double_grid [OF assms, of w]
  by (simp add: js_div_def)

lemma js_div_by_zero:
  "0 < w \<Longrightarrow> js_div w 0 = PosInf"
  "js_div 0 0 = NaN"
  "w < 0 \<Longrightarrow> js_div w 0 = NegInf"
  by (simp_all add: js_div_def)

lemmas double_defs = js_div_def div_double_def exponent_def round_even_def bits.simps Let_def

lemma sample_quotients:
  "js_div 1366 768 = Fin (8010308712224085 / 4503599627370496)"
  "js_div 640 480 = Fin (6004799503160661 / 4503599627370496)"
  "js_div 1024 512 = Fin 2"
  "js_div 640 0 = PosInf"
  by (simp_all add: double_defs)

section \<open>C3: a resize recomputes the aspect ratio\<close>

text \<open>
  C3. After the script and any events, a resize event of the window runs \<open>onResize\<close> and
  nothing else. With \<open>w\<close> the container's \<open>clientWidth\<close>, or \<open>window.innerWidth\<close> where that
  is 0, and \<open>h\<close> likewise from the heights, \<open>renderer.setSize\<close> receives \<open>w\<close> and \<open>h\<close>, and
  \<open>camera.aspect\<close> becomes \<open>w / h\<close> as a double: for \<open>h\<close> other than 0 a number with a
  significand of at most 53 binary digits that differs from the exact quotient by at most
  the \<open>2 ^ 53\<close>-th part of it, for \<open>h = 0\<close> an infinity of the sign of \<open>w\<close>, or \<open>NaN\<close> where
  \<open>w\<close> is 0 too. The projection matrix is updated from the new aspect.
\<close>

theorem resize_recomputes_aspect:
  "script e = Inr s0 \<and> run e evs s0 = Inr s \<longrightarrow>
     (let w = (if clientWidth vp = 0 then innerWidth vp else clientWidth vp);
          h = (if clientHeight vp = 0 then innerHeight vp else clientHeight vp);
          s' = onResize vp s
      in step e (DomEvent Window ''resize'' vp) s = Inr s'
         \<and> render_size (renderer s') = Some (w, h)
         \<and> trace s' = trace s @ [SetSize w h, UpdateProjectionMatrix]
         \<and> projection_aspect (camera s') = aspect (camera s')
         \<and> (h \<noteq> 0 \<longrightarrow>
               (\<exists>x (m::int) (j::nat). aspect (camera s') = Fin x
                  \<and> \<bar>x - real_of_int w / real_of_int h\<bar>
                      \<le> \<bar>real_of_int w / real_of_int h\<bar> / 2 ^ 53
                  \<and> 0 \<le> m \<and> m \<le> 2 ^ 53
                  \<and> (\<bar>x\<bar> = real_of_int m / 2 ^ j \<or> \<bar>x\<bar> = real_of_int m * 2 ^ j)))
         \<and> (h = 0 \<and> 0 < w \<longrightarrow> aspect (camera s') = PosInf)
         \<and> (h = 0 \<and> w = 0 \<longrightarrow> aspect (camera s') = NaN)
         \<and> (h = 0 \<and> w < 0 \<longrightarrow> aspect (camera s') = NegInf))"
proof
  assume "script e = Inr s0 \<and> run e evs s0 = Inr s"
  then have "page_inv s" using reachable_inv by blast
  then have "listeners_ok s" by (simp add: page_inv_def)
  then have d: "dispatch Window ''resize'' vp s = onResize vp s"
    by (simp add: dispatch_cases)
  define w where "w = (if clientWidth vp = 0 then innerWidth vp else clientWidth vp)"
  define h where "h = (if clientHeight vp = 0 then innerHeight vp else clientHeight vp)"
  have wh: "int_or (clientWidth vp) (innerWidth vp) = w"
    "int_or (clientHeight vp) (innerHeight vp) = h"
    by (simp_all add: int_or_def w_def h_def)
  have a: "aspect (camera (onResize vp s)) = js_div w h"
    and r: "render_size (renderer (onResize vp s)) = Some (w, h)"
    and t: "trace (onResize vp s) = trace s @ [SetSize w h, UpdateProjectionMatrix]"
    and p: "projection_aspect (camera (onResize vp s)) = aspect (camera (onResize vp s))"
    by (simp_all add: onResize_result wh)
  have fin: "h \<noteq> 0 \<longrightarrow>
      (\<exists>x (m::int) (j::nat). aspect (camera (onResize vp s)) = Fin x
         \<and> \<bar>x - real_of_int w / real_of_int h\<bar> \<le> \<bar>real_of_int w / real_of_int h\<bar> / 2 ^ 53
         \<and> 0 \<le> m \<and> m \<le> 2 ^ 53
         \<and> (\<bar>x\<bar> = real_of_int m / 2 ^ j \<or> \<bar>x\<bar> = real_of_int m * 2 ^ j))"
    using js_div_finite [of h w] by (simp only: a) blast
  have zero: "(h = 0 \<and> 0 < w \<longrightarrow> aspect (camera (onResize vp s)) = PosInf)
      \<and> (h = 0 \<and> w = 0 \<longrightarrow> aspect (camera (onResize vp s)) = NaN)
      \<and> (h = 0 \<and> w < 0 \<longrightarrow> aspect (camera (onResize vp s)) = NegInf)"
    using js_div_by_zero by (simp add: a)
  from d r t p fin zero
  show "let w = (if clientWidth vp = 0 then innerWidth vp else clientWidth vp);
          h = (if clientHeight vp = 0 then innerHeight vp else clientHeight vp);
          s' = onResize vp s
      in step e (DomEvent Window ''resize'' vp) s = Inr s'
         \<and> render_size (renderer s') = Some (w, h)
         \<and> trace s' = trace s @ [SetSize w h, UpdateProjectionMatrix]
         \<and> projection_aspect (camera s') = aspect (camera s')
         \<and> (h \<noteq> 0 \<longrightarrow>
               (\<exists>x (m::int) (j::nat). aspect (camera s') = Fin x
                  \<and> \<bar>x - real_of_int w / real_of_int h\<bar>
                      \<le> \<bar>real_of_int w / real_of_int h\<bar> / 2 ^ 53
                  \<and> 0 \<le> m \<and> m \<le> 2 ^ 53
                  \<and> (\<bar>x\<bar> = real_of_int m / 2 ^ j \<or> \<bar>x\<bar> = real_of_int m * 2 ^ j)))
         \<and> (h = 0 \<and> 0 < w \<longrightarrow> aspect (camera s') = PosInf)
         \<and> (h = 0 \<and> w = 0 \<longrightarrow> aspect (camera s') = NaN)
         \<and> (h = 0 \<and> w < 0 \<longrightarrow> aspect (camera s') = NegInf)"
    unfolding Let_def w_def [symmetric] h_def [symmetric] by simp
qed

lemma sample_resizes:
  "render_size (renderer (onResize wide s)) = Some (1366, 768)"
  "aspect (camera (onResize wide s)) = Fin (8010308712224085 / 4503599627370496)"
  "render_size (renderer (onResize flat s)) = Some (640, 480)"
  "aspect (camera (onResize flat s)) = Fin (6004799503160661 / 4503599627370496)"
  "render_size (renderer (onResize collapsed s)) = Some (640, 0)"
  "aspect (camera (onResize collapsed s)) = PosInf"
  by (simp_all add: onResize_result int_or_def wide_def flat_def collapsed_def sample_quotients)

theorem resize_recomputes_aspect_witness:
  "script bare_page = Inr (loaded bare_page)
   \<and> run bare_page both_succeed (loaded bare_page)
       = Inr (projr (run bare_page both_succeed (loaded bare_page)))
   \<and> step bare_page (DomEvent Window ''resize'' wide)
        (projr (run bare_page both_succeed (loaded bare_page)))
       = Inr (onResize wide (projr (run bare_page both_succeed (loaded bare_page))))
   \<and> render_size (renderer (onResize wide
        (projr (run bare_page both_succeed (loaded bare_page))))) = Some (1366, 768)
   \<and> aspect (camera (onResize wide (projr (run bare_page both_succeed (loaded bare_page)))))
       = Fin (8010308712224085 / 4503599627370496)
   \<and> \<bar>8010308712224085 / 4503599627370496 - 1366 / 768\<bar> \<le> \<bar>1366 / 768 :: real\<bar> / 2 ^ 53
   \<and> render_size (renderer (onResize flat
        (projr (run bare_page both_succeed (loaded bare_page))))) = Some (640, 480)
   \<and> aspect (camera (onResize flat (projr (run bare_page both_succeed (loaded bare_page)))))
       = Fin (6004799503160661 / 4503599627370496)
   \<and> step bare_page (DomEvent Window ''resize'' collapsed)
        (projr (run bare_page both_succeed (loaded bare_page)))
       = Inr (onResize collapsed (projr (run bare_page both_succeed (loaded bare_page))))
   \<and> render_size (renderer (onResize collapsed
        (projr (run bare_page both_succeed (loaded bare_page))))) = Some (640, 0)
   \<and> aspect (camera (onResize collapsed
        (projr (run bare_page both_succeed (loaded bare_page))))) = PosInf"
  using resize_recomputes_aspect
    [of bare_page "loaded bare_page" both_succeed
        "projr (run bare_page both_succeed (loaded bare_page))" wide]
    resize_recomputes_aspect
    [of bare_page "loaded bare_page" both_succeed
        "projr (run bare_page both_succeed (loaded bare_page))" flat]
    resize_recomputes_aspect
    [of bare_page "loaded bare_page" both_succeed
        "projr (run bare_page both_succeed (loaded bare_page))" collapsed]
    bare_loaded bare_run
  by (simp add: Let_def sample_resizes)

section \<open>C4: the one failure that is handled\<close>

lemma unheard_elsewhere:
  assumes "script e = Inr s0" "tgt \<noteq> OverlayEl" "tgt \<noteq> Window"
  shows "step e (DomEvent tgt ty vp) s0 = Inr s0"
proof -
  have "filter (hears tgt ty) (listeners s0) = []"
    using script_fields(2) [OF assms(1)] assms(2,3) by (simp add: hears_two)
  then show ?thesis by (simp add: dispatch_unheard)
qed

lemma logged_differs: "s\<lparr>pending := ps, trace := trace s @ [a]\<rparr> \<noteq> s"
proof
  assume "s\<lparr>pending := ps, trace := trace s @ [a]\<rparr> = s"
  then have "trace (s\<lparr>pending := ps, trace := trace s @ [a]\<rparr>) = trace s"
    by (rule arg_cong)
  then show False by simp
qed

lemma rejection_handled:
  assumes "script e = Inr s0"
  shows "\<not> unhandled e s0 Autoplay r"
  using reject_autoplay [OF assms, of r] logged_differs [of s0]
  by (simp add: unhandled_def)

text \<open>
  C4, as amended. On the loaded page a rejected first \<open>play()\<close> promise is caught whatever
  the reason, be it blocked autoplay or a source that cannot be played: the turn ends
  without an uncaught error, it logs the same line, and the hint stays in the body with no
  \<open>display\<close> set. A resolved promise hides the hint through \<open>hideOverlay\<close>. What does not
  reach the script as a rejected \<open>play()\<close> promise has no handler: the script has registered
  the click and the resize listener and no other, so an event on any other target (an
  \<open>error\<close> event of the video, say) changes nothing, and without the \<open>THREE\<close> global the script
  itself ends in an uncaught \<open>ReferenceError\<close>, before any listener or promise chain exists.
  No sequence of events on the loaded page ends in an uncaught error.
\<close>

theorem only_play_rejection_is_caught:
  "(script e = Inr s0 \<longrightarrow>
      step e (PlaySettled Autoplay (Rejected r)) s0
        = Inr (s0\<lparr>pending := [],
                  trace := trace s0 @
                    [Console Info [''Autoplay blocked '' @ em_dash @ '' click to play the video.'']]\<rparr>)
      \<and> \<not> unhandled e s0 Autoplay r
      \<and> map_of (style (overlay s0)) ''display'' = None
      \<and> (Body, OverlayEl) \<in> set (appended s0)
      \<and> step e (PlaySettled Autoplay Resolved) s0
          = Inr (hideOverlay (setupVideoTexture e (s0\<lparr>pending := []\<rparr>)))
      \<and> map_of (style (overlay (hideOverlay (setupVideoTexture e (s0\<lparr>pending := []\<rparr>)))))
            ''display'' = Some ''none''
      \<and> listeners s0 = [click_listener, resize_listener]
      \<and> (tgt \<noteq> OverlayEl \<and> tgt \<noteq> Window \<longrightarrow> step e (DomEvent tgt ty vp) s0 = Inr s0)
      \<and> (\<exists>s. run e evs s0 = Inr s))
   \<and> (\<not> three_loaded e \<longrightarrow>
        script e = Inl (ReferenceError ''THREE'', locate_container (blank e))
        \<and> listeners (locate_container (blank e)) = []
        \<and> pending (locate_container (blank e)) = [])"
  using reject_autoplay [of e s0 r] resolve_autoplay [of e s0] script_fields(2,3,4) [of e s0]
    hidden_after unheard_elsewhere [of e s0 tgt ty vp] script_without_three [of e]
    nothing_registered(1,2) [of e] run_never_throws [of s0 e evs] page_inv_script(1) [of e s0]
    rejection_handled [of e s0 r]
  by simp

theorem only_play_rejection_is_caught_witness:
  "script bare_page = Inr (loaded bare_page)
   \<and> step bare_page (PlaySettled Autoplay (Rejected NotAllowedError)) (loaded bare_page)
       = Inr ((loaded bare_page)\<lparr>pending := [],
                trace := trace (loaded bare_page) @
                  [Console Info [''Autoplay blocked '' @ em_dash @ '' click to play the video.'']]\<rparr>)
   \<and> \<not> unhandled bare_page (loaded bare_page) Autoplay NotAllowedError
   \<and> map_of (style (overlay (loaded bare_page))) ''display'' = None
   \<and> VideoEl \<noteq> OverlayEl \<and> VideoEl \<noteq> Window
   \<and> step bare_page (DomEvent VideoEl ''error'' desktop) (loaded bare_page)
       = Inr (loaded bare_page)
   \<and> run bare_page click_fail_click (loaded bare_page)
       = Inr (projr (run bare_page click_fail_click (loaded bare_page)))
   \<and> \<not> three_loaded page_without_three
   \<and> script page_without_three
       = Inl (ReferenceError ''THREE'', locate_container (blank page_without_three))"
  using only_play_rejection_is_caught
    [of bare_page "loaded bare_page" NotAllowedError VideoEl "''error''" desktop click_fail_click]
    only_play_rejection_is_caught [of page_without_three]
    bare_loaded no_three bare_reject
  by simp

text \<open>
  The video file is missing, and the browser rejects the first \<open>play()\<close> promise with
  \<open>NotSupportedError\<close>: the script's \<open>catch\<close> takes it exactly as it takes blocked autoplay.
  The failure is neither uncaught nor without effect.
\<close>

theorem missing_source_is_caught_counterexample:
  "script bare_page = Inr (loaded bare_page)
   \<and> step bare_page (PlaySettled Autoplay (Rejected NotSupportedError)) (loaded bare_page)
       = Inr ((loaded bare_page)\<lparr>pending := [],
                trace := trace (loaded bare_page) @
                  [Console Info [''Autoplay blocked '' @ em_dash @ '' click to play the video.'']]\<rparr>)
   \<and> step bare_page (PlaySettled Autoplay (Rejected NotSupportedError)) (loaded bare_page)
       = step bare_page (PlaySettled Autoplay (Rejected NotAllowedError)) (loaded bare_page)
   \<and> \<not> unhandled bare_page (loaded bare_page) Autoplay NotSupportedError"
  using reject_autoplay [OF bare_loaded] rejection_handled [OF bare_loaded] bare_loaded
  by simp

section \<open>C5: one retry per page load\<close>

text \<open>
  C5. The script registers the click listener of the hint with \<open>once\<close>, for \<open>tryPlay\<close>.
  After the script and any events, at most one retry has been started; as long as none has
  been, a click starts one and removes the listener; once one has been, a click changes
  nothing, whether or not the retry's promise was rejected.
\<close>

theorem retry_at_most_once:
  "script e = Inr s0 \<longrightarrow>
     listeners s0 = [click_listener, resize_listener]
     \<and> l_once click_listener \<and> l_handler click_listener = TryPlay
     \<and> (run e evs s0 = Inr s \<longrightarrow>
          retries s \<le> 1
          \<and> (retries s = 1 \<longrightarrow> step e (DomEvent OverlayEl ''click'' vp) s = Inr s)
          \<and> (retries s = 0 \<longrightarrow>
                step e (DomEvent OverlayEl ''click'' vp) s
                  = Inr (tryPlay (s\<lparr>listeners := [resize_listener]\<rparr>))
                \<and> retries (tryPlay (s\<lparr>listeners := [resize_listener]\<rparr>)) = 1))"
proof
  assume l: "script e = Inr s0"
  have a: "listeners s0 = [click_listener, resize_listener]"
    using script_fields(2) [OF l] .
  have b: "l_once click_listener \<and> l_handler click_listener = TryPlay"
    by (simp add: click_listener_def)
  have c: "retries s \<le> 1
          \<and> (retries s = 1 \<longrightarrow> step e (DomEvent OverlayEl ''click'' vp) s = Inr s)
          \<and> (retries s = 0 \<longrightarrow>
                step e (DomEvent OverlayEl ''click'' vp) s
                  = Inr (tryPlay (s\<lparr>listeners := [resize_listener]\<rparr>))
                \<and> retries (tryPlay (s\<lparr>listeners := [resize_listener]\<rparr>)) = 1)"
    if r: "run e evs s0 = Inr s"
  proof -
    from l r have "page_inv s" by (rule reachable_inv)
    then have ok: "listeners_ok s" by (simp add: page_inv_def)
    then have "retries s \<le> 1" by (auto simp: listeners_ok_def)
    moreover have "retries (tryPlay (s\<lparr>listeners := [resize_listener]\<rparr>)) = Suc (retries s)"
      by (simp add: tryPlay_def retries_def)
    ultimately show ?thesis by (simp add: dispatch_cases [OF ok])
  qed
  from a b c show "listeners s0 = [click_listener, resize_listener]
     \<and> l_once click_listener \<and> l_handler click_listener = TryPlay
     \<and> (run e evs s0 = Inr s \<longrightarrow>
          retries s \<le> 1
          \<and> (retries s = 1 \<longrightarrow> step e (DomEvent OverlayEl ''click'' vp) s = Inr s)
          \<and> (retries s = 0 \<longrightarrow>
                step e (DomEvent OverlayEl ''click'' vp) s
                  = Inr (tryPlay (s\<lparr>listeners := [resize_listener]\<rparr>))
                \<and> retries (tryPlay (s\<lparr>listeners := [resize_listener]\<rparr>)) = 1))"
    by blast
qed

lemma bare_retries: "retries (projr (run bare_page click_fail_click (loaded bare_page))) = 1"
  by (simp add: eval_defs click_fail_click_def retries_def)

theorem retry_at_most_once_witness:
  "script bare_page = Inr (loaded bare_page)
   \<and> run bare_page click_fail_click (loaded bare_page)
       = Inr (projr (run bare_page click_fail_click (loaded bare_page)))
   \<and> retries (projr (run bare_page click_fail_click (loaded bare_page))) = 1
   \<and> step bare_page (DomEvent OverlayEl ''click'' desktop)
        (projr (run bare_page click_fail_click (loaded bare_page)))
       = Inr (projr (run bare_page click_fail_click (loaded bare_page)))"
  using retry_at_most_once
    [of bare_page "loaded bare_page" click_fail_click
        "projr (run bare_page click_fail_click (loaded bare_page))" desktop]
    bare_loaded bare_reject bare_retries
  by simp

section \<open>C6: which callback assigns which variable\<close>

lemma step_who_mutates:
  assumes "page_inv s" "step e ev s = Inr s'"
  shows "video s' = video s
    \<and> (\<not> is_play_success ev \<longrightarrow>
          materialSet s' = materialSet s \<and> material (cube s') = material (cube s)
          \<and> map_option tex_ref (videoTexture s') = map_option tex_ref (videoTexture s))
    \<and> (\<not> is_frame ev \<longrightarrow> last s' = last s)
    \<and> (\<forall>t rs. ev = Frame t rs \<longrightarrow> last s' = t)"
proof (cases ev)
  case (DomEvent tgt ty vp)
  with assms show ?thesis by auto
next
  case (Frame t rs)
  with assms show ?thesis
    by (cases "videoTexture s") (auto simp: animate_result page_inv_def)
next
  case (PlaySettled orig out)
  show ?thesis
  proof (cases "find (\<lambda>p. p_origin p = orig) (pending s)")
    case None
    with assms PlaySettled show ?thesis by (simp add: settle_def)
  next
    case (Some p)
    then have "p \<in> set (pending s)" by (auto simp: find_Some_iff)
    with assms(1) have p: "on_rejected p = Some InfoAutoplayBlocked
        \<or> on_rejected p = Some WarnStillBlocked"
      by (auto simp: page_inv_def chains_ok_def list_all_iff)
    show ?thesis
    proof (cases out)
      case Resolved
      with assms PlaySettled Some show ?thesis by (auto simp: settle_def Let_def)
    next
      case (Rejected r)
      with assms PlaySettled Some p show ?thesis by (auto simp: settle_def Let_def)
    qed
  qed
next
  case CallShowVideoURL
  with assms show ?thesis by (auto simp: showVideoURL_def split: if_splits)
qed

text \<open>
  C6, as amended. After the script and any events, one more event never reassigns
  \<open>video\<close>; it leaves \<open>materialSet\<close>, the cube's material and the identity of the video
  texture as they are unless it is a resolved \<open>play()\<close> promise; it leaves \<open>last\<close> as it is
  unless it is an animation frame, and an animation frame sets \<open>last\<close> to its timestamp.
  In particular a resize changes none of the four.
\<close>

theorem who_mutates_the_variables:
  "script e = Inr s0 \<and> run e evs s0 = Inr s \<and> step e ev s = Inr s' \<longrightarrow>
     video s' = video s
     \<and> (\<not> is_play_success ev \<longrightarrow>
           materialSet s' = materialSet s \<and> material (cube s') = material (cube s)
           \<and> map_option tex_ref (videoTexture s') = map_option tex_ref (videoTexture s))
     \<and> (\<not> is_frame ev \<longrightarrow> last s' = last s)
     \<and> (\<forall>t rs. ev = Frame t rs \<longrightarrow> last s' = t)"
  using reachable_inv step_who_mutates by blast

lemma bare_frame0: "step bare_page (Frame 1016 0) (loaded bare_page)
   = Inr (projr (step bare_page (Frame 1016 0) (loaded bare_page)))"
  by (simp add: animate_result)

theorem who_mutates_the_variables_witness:
  "script bare_page = Inr (loaded bare_page)
   \<and> run bare_page [] (loaded bare_page) = Inr (loaded bare_page)
   \<and> step bare_page (Frame 1016 0) (loaded bare_page)
       = Inr (projr (step bare_page (Frame 1016 0) (loaded bare_page)))
   \<and> is_frame (Frame 1016 0) \<and> \<not> is_play_success (Frame 1016 0)
   \<and> last (projr (step bare_page (Frame 1016 0) (loaded bare_page))) = 1016
   \<and> materialSet (projr (step bare_page (Frame 1016 0) (loaded bare_page)))
       = materialSet (loaded bare_page)
   \<and> video (projr (step bare_page (Frame 1016 0) (loaded bare_page)))
       = video (loaded bare_page)"
  using who_mutates_the_variables
    [of bare_page "loaded bare_page" "[]" "loaded bare_page" "Frame 1016 0"
        "projr (step bare_page (Frame 1016 0) (loaded bare_page))"]
    bare_loaded bare_frame0
  by simp

text \<open>
  The first frame after loading, at 1016 ms on a page loaded at 1000 ms: \<open>animate\<close>, not a
  promise or resize callback, moves the last-frame timestamp.
\<close>

theorem animate_mutates_last_counterexample:
  "script bare_page = Inr (loaded bare_page)
   \<and> step bare_page (Frame 1016 0) (loaded bare_page)
       = animate 1016 0 ((loaded bare_page)\<lparr>raf_pending := 0\<rparr>)
   \<and> last (loaded bare_page) = 1000
   \<and> last (projr (step bare_page (Frame 1016 0) (loaded bare_page))) = 1016"
  using bare_loaded bare_last bare_raf by (simp add: animate_result)

section \<open>C7: the order of the setup steps\<close>

lemma first_index_prefix:
  "first_index x xs = Some i \<Longrightarrow> first_index x (xs @ ys) = Some i"
  by (induction xs arbitrary: i) (auto split: if_splits)

lemma first_index_beyond:
  "x \<notin> set xs \<Longrightarrow> first_index x (xs @ ys) = Some j \<Longrightarrow> length xs \<le> j"
  by (induction xs arbitrary: j) auto

lemma first_index_None: "first_index x xs = None \<longleftrightarrow> x \<notin> set xs"
  by (induction xs) auto

lemma first_index_less: "first_index x xs = Some i \<Longrightarrow> i < length xs"
  by (induction xs arbitrary: i) (auto split: if_splits)

lemma increasing_adjacent:
  "increasing (ps @ x # y # qs) \<Longrightarrow> \<exists>a b. x = Some a \<and> y = Some b \<and> a < b"
proof (induction ps rule: increasing.induct)
  case 1
  then show ?case by (auto split: option.splits)
next
  case (2 p)
  then show ?case by (auto split: option.splits)
next
  case (3 p q r)
  then show ?case by (auto split: option.splits)
qed

lemmas order_defs = in_order_def steps_abc_def steps_ef_def step_d_def stated_sequence_def
  actual_sequence_def CONTAINER_ID_def

lemma script_trace_order:
  assumes "script e = Inr s0"
  shows "in_order (steps_abc @ steps_ef) (trace s0)"
    and "step_d \<notin> set (trace s0)"
    and "AddEventListener Window ''resize'' \<in> set (trace s0)"
  using script_Inr [OF assms]
  by (auto simp: body_defs order_defs split: option.splits)

lemma success_trace_order:
  assumes "script e = Inr s0"
  shows "in_order actual_sequence (trace (hideOverlay (setupVideoTexture e (s0\<lparr>pending := []\<rparr>))))"
  using script_Inr [OF assms]
  by (auto simp: body_defs order_defs setupVideoTexture_def split: option.splits)

lemma stated_order_fails:
  assumes "script e = Inr s0" "trace s = trace s0 @ xs"
  shows "\<not> in_order stated_sequence (trace s)"
proof
  assume "in_order stated_sequence (trace s)"
  then have "increasing (map (\<lambda>m. first_index m (trace s)) steps_abc
      @ first_index step_d (trace s)
      # first_index (AddEventListener Window ''resize'') (trace s)
      # [first_index RequestAnimationFrame (trace s)])"
    by (simp add: in_order_def stated_sequence_def steps_ef_def)
  then obtain a b where ab: "first_index step_d (trace s) = Some a"
      "first_index (AddEventListener Window ''resize'') (trace s) = Some b" "a < b"
    using increasing_adjacent by blast
  from script_trace_order(3) [OF assms(1)] obtain k
    where k: "first_index (AddEventListener Window ''resize'') (trace s0) = Some k"
    by (cases "first_index (AddEventListener Window ''resize'') (trace s0)")
       (auto simp: first_index_None)
  then have "k < length (trace s0)" by (rule first_index_less)
  moreover from k assms(2) ab(2) have "b = k"
    by (simp add: first_index_prefix)
  moreover from script_trace_order(2) [OF assms(1)] assms(2) ab(1)
  have "length (trace s0) \<le> a"
    using first_index_beyond by metis
  ultimately show False using ab(3) by simp
qed

text \<open>
  C7, as amended. The script body runs (a) the container lookup, (b) the construction of
  renderer, scene, camera and mesh, the mesh with a material that maps no texture, (c) the
  creation of the video element, which is never appended, and \<open>video.play()\<close>, then (e) the
  registration of the resize listener and (f) the first animation-frame request, in this
  order. When it returns, step (d) has not run: no video texture exists and the flag is
  unset. The swap runs in the turn in which the promise resolves, so after (e) and (f); over
  no sequence of events does it come before them.
\<close>

theorem setup_sequence:
  "script e = Inr s0 \<longrightarrow>
     in_order (steps_abc @ steps_ef) (trace s0)
     \<and> step_d \<notin> set (trace s0) \<and> \<not> materialSet s0 \<and> map_tex (material (cube s0)) = None
     \<and> VideoEl \<notin> snd ` set (appended s0)
     \<and> step e (PlaySettled Autoplay Resolved) s0
         = Inr (hideOverlay (setupVideoTexture e (s0\<lparr>pending := []\<rparr>)))
     \<and> in_order actual_sequence
          (trace (hideOverlay (setupVideoTexture e (s0\<lparr>pending := []\<rparr>))))
     \<and> (run e evs s0 = Inr s \<longrightarrow> \<not> in_order stated_sequence (trace s))"
proof
  assume l: "script e = Inr s0"
  have "\<not> in_order stated_sequence (trace s)" if "run e evs s0 = Inr s"
    using run_trace_grows [OF that] stated_order_fails [OF l] by blast
  with l show "in_order (steps_abc @ steps_ef) (trace s0)
     \<and> step_d \<notin> set (trace s0) \<and> \<not> materialSet s0 \<and> map_tex (material (cube s0)) = None
     \<and> VideoEl \<notin> snd ` set (appended s0)
     \<and> step e (PlaySettled Autoplay Resolved) s0
         = Inr (hideOverlay (setupVideoTexture e (s0\<lparr>pending := []\<rparr>)))
     \<and> in_order actual_sequence
          (trace (hideOverlay (setupVideoTexture e (s0\<lparr>pending := []\<rparr>))))
     \<and> (run e evs s0 = Inr s \<longrightarrow> \<not> in_order stated_sequence (trace s))"
    using script_trace_order(1,2) script_fields(5,6,8) resolve_autoplay success_trace_order
    by blast
qed

theorem setup_sequence_witness:
  "script bare_page = Inr (loaded bare_page)
   \<and> in_order (steps_abc @ steps_ef) (trace (loaded bare_page))
   \<and> step_d \<notin> set (trace (loaded bare_page))
   \<and> run bare_page autoplay_succeeds (loaded bare_page)
       = Inr (projr (run bare_page autoplay_succeeds (loaded bare_page)))
   \<and> \<not> in_order stated_sequence
         (trace (projr (run bare_page autoplay_succeeds (loaded bare_page))))"
  using setup_sequence
    [of bare_page "loaded bare_page" autoplay_succeeds
        "projr (run bare_page autoplay_succeeds (loaded bare_page))"]
    bare_loaded bare_success
  by simp

text \<open>
  On the bare page the resize listener is registered at position 19 of the trace (counted
  from 0) and the first frame requested at position 23; the video texture is built at
  position 25, once the promise has resolved.
\<close>

theorem swap_after_listener_counterexample:
  "script bare_page = Inr (loaded bare_page)
   \<and> first_index step_d (trace (loaded bare_page)) = None
   \<and> first_index (AddEventListener Window ''resize'') (trace (loaded bare_page)) = Some 19
   \<and> first_index RequestAnimationFrame (trace (loaded bare_page)) = Some 23
   \<and> first_index step_d (trace (projr (run bare_page autoplay_succeeds (loaded bare_page))))
       = Some 25
   \<and> \<not> in_order stated_sequence
         (trace (projr (run bare_page autoplay_succeeds (loaded bare_page))))"
  by (simp add: eval_defs autoplay_succeeds_def order_defs)

section \<open>C8: a frame before the video is ready\<close>

text \<open>
  C8. \<open>animate\<close> never throws: on every state, with every timestamp and every ready state of
  the video, it returns the state with the timestamp stored, the cube rotated, one more
  frame requested and one render. It writes \<open>needsUpdate\<close> only where \<open>videoTexture\<close> holds a
  texture and the ready state is at least 2; with \<open>videoTexture\<close> undefined (as the script
  leaves it) or a lower ready state the variable is left as it is, although on an undefined
  \<open>videoTexture\<close> the assignment of line 146 on its own would throw.
\<close>

theorem animate_survives_missing_texture:
  "(\<exists>s'. animate t rs s = Inr s'
        \<and> last s' = t
        \<and> rotation_x (cube s') = rotation_x (cube s) + (t - last s) / 1000 * 0.35
        \<and> rotation_y (cube s') = rotation_y (cube s) + (t - last s) / 1000 * 0.6
        \<and> trace s' = trace s @ [RequestAnimationFrame, Render]
        \<and> (videoTexture s = None \<or> rs < 2 \<longrightarrow> videoTexture s' = videoTexture s)
        \<and> (\<forall>tx. videoTexture s = Some tx \<and> 2 \<le> rs \<longrightarrow>
              videoTexture s' = Some (tx\<lparr>tex_needsUpdate := True\<rparr>)))
   \<and> (videoTexture s = None \<longrightarrow> touch_texture s = Inl (TypeError ''videoTexture is undefined''))
   \<and> (\<exists>s'. step e (Frame t rs) s = Inr s')
   \<and> (script e = Inr s0 \<longrightarrow> videoTexture s0 = None)"
proof -
  have "script e = Inr s0 \<longrightarrow> videoTexture s0 = None"
    using script_Inr [of e s0] by (auto simp: body_defs)
  then show ?thesis
    by (auto simp: animate_result touch_texture_def)
qed

theorem animate_survives_missing_texture_witness:
  "videoTexture (loaded bare_page) = None
   \<and> script bare_page = Inr (loaded bare_page)
   \<and> touch_texture (loaded bare_page) = Inl (TypeError ''videoTexture is undefined'')
   \<and> animate 1016 4 (loaded bare_page) = Inr (projr (animate 1016 4 (loaded bare_page)))
   \<and> videoTexture (projr (animate 1016 4 (loaded bare_page))) = None
   \<and> trace (projr (animate 1016 4 (loaded bare_page)))
       = trace (loaded bare_page) @ [RequestAnimationFrame, Render]"
  using animate_survives_missing_texture [of 1016 4 "loaded bare_page" bare_page "loaded bare_page"]
    bare_no_texture bare_loaded
  by auto

section \<open>C9: the two debugging globals\<close>

text \<open>
  C9. Where the script runs to its end, the properties it has assigned on \<open>window\<close> are
  \<open>showVideoURL\<close> and \<open>__threeCube\<close>, the latter with the keys \<open>video\<close>, \<open>cube\<close>,
  \<open>renderer\<close>, \<open>scene\<close> and \<open>camera\<close>, and no event adds or changes one; calling
  \<open>showVideoURL\<close> logs the video's source URL and a hint to open it. Where the script stops
  for lack of \<open>THREE\<close>, it has assigned none.
\<close>

theorem two_debug_globals:
  "(script e = Inr s0 \<longrightarrow>
      window_props s0 = debug_globals
      \<and> map fst (window_props s0) = [''showVideoURL'', ''__threeCube'']
      \<and> map_of (window_props s0) ''showVideoURL'' = Some ShowVideoURL
      \<and> map_of (window_props s0) ''__threeCube''
          = Some (ThreeCube [(''video'', RVideo), (''cube'', RCube), (''renderer'', RRenderer),
                             (''scene'', RScene), (''camera'', RCamera)])
      \<and> (run e evs s0 = Inr s \<longrightarrow> window_props s = window_props s0)
      \<and> step e CallShowVideoURL s0 = Inr (showVideoURL e s0)
      \<and> trace (showVideoURL e s0) = trace s0 @
           [Console Log [''Video src:'', video_url e],
            Console Log [''Attempt to open this URL in a new tab to confirm it'' @ [CHR 0x27] @
                         ''s reachable:''],
            Console Log [location_origin e @ ''/images/hanterrace.mp4'']])
   \<and> (script e = Inl (err, s1) \<longrightarrow> window_props s1 = [])"
proof -
  have "script e = Inl (err, s1) \<longrightarrow> window_props s1 = []"
    by (auto simp: script_def Let_def nothing_registered split: if_splits)
  moreover have "map fst debug_globals = [''showVideoURL'', ''__threeCube'']"
    and "map_of debug_globals ''showVideoURL'' = Some ShowVideoURL"
    and "map_of debug_globals ''__threeCube''
          = Some (ThreeCube [(''video'', RVideo), (''cube'', RCube), (''renderer'', RRenderer),
                             (''scene'', RScene), (''camera'', RCamera)])"
    by (simp_all add: debug_globals_def)
  moreover have "trace (showVideoURL e s0) = trace s0 @
           [Console Log [''Video src:'', video_url e],
            Console Log [''Attempt to open this URL in a new tab to confirm it'' @ [CHR 0x27] @
                         ''s reachable:''],
            Console Log [location_origin e @ ''/images/hanterrace.mp4'']]"
    by (simp add: showVideoURL_def strip_slash_def VIDEO_SRC_def)
  ultimately show ?thesis
    using script_fields(9) [of e s0] run_window_props [of e evs s0 s] by simp
qed

theorem two_debug_globals_witness:
  "script bare_page = Inr (loaded bare_page)
   \<and> map fst (window_props (loaded bare_page)) = [''showVideoURL'', ''__threeCube'']
   \<and> run bare_page both_succeed (loaded bare_page)
       = Inr (projr (run bare_page both_succeed (loaded bare_page)))
   \<and> window_props (projr (run bare_page both_succeed (loaded bare_page)))
       = window_props (loaded bare_page)
   \<and> script page_without_three
       = Inl (ReferenceError ''THREE'', locate_container (blank page_without_three))
   \<and> window_props (locate_container (blank page_without_three)) = []"
  using two_debug_globals
    [of bare_page "loaded bare_page" both_succeed
        "projr (run bare_page both_succeed (loaded bare_page))"]
    two_debug_globals
    [of page_without_three _ _ _ "ReferenceError ''THREE''"
        "locate_container (blank page_without_three)"]
    bare_loaded bare_run without_three_script
  by (simp add: debug_globals_def)

section \<open>C10: the pixel ratio is capped at 2\<close>

lemma pixel_ratio_is_spec: "pixel_ratio_arg dpr = capped_ratio_spec dpr"
proof (cases dpr)
  case Undefined
  then show ?thesis
    by (simp add: pixel_ratio_arg_def capped_ratio_spec_def math_min_def js_or_def)
next
  case (Num n)
  then show ?thesis
    by (cases n)
       (simp_all add: pixel_ratio_arg_def capped_ratio_spec_def math_min_def js_or_def min_def)
qed

lemma spec_at_most_2: "num_le (capped_ratio_spec dpr) (Fin 2)"
  by (simp add: capped_ratio_spec_def split: jsval.splits jsnum.splits)

lemma spec_in_range: "not_negative dpr \<Longrightarrow> in_0_2 (capped_ratio_spec dpr)"
  by (auto simp: capped_ratio_spec_def not_negative_def in_0_2_def
           split: jsval.splits jsnum.splits)

lemma script_ratio:
  assumes "script e = Inr s0"
  shows "pixelRatio (renderer s0) = pixel_ratio_arg (devicePixelRatio e)"
    and "SetPixelRatio v \<in> set (trace s0) \<longleftrightarrow> v = pixel_ratio_arg (devicePixelRatio e)"
  using script_Inr [OF assms]
  by (auto simp: body_defs split: option.splits)

text \<open>
  C10, as amended. The value that line 24 passes to \<open>renderer.setPixelRatio\<close> is the device
  pixel ratio, or 1 where that is undefined, \<open>NaN\<close> or 0, capped at 2, whatever the device
  pixel ratio is; it is never above 2; and it lies in the interval from 0 (excluded) to 2
  (included) whenever the device pixel ratio is not negative. The script passes that one
  value and no other.
\<close>

theorem pixel_ratio_capped:
  "pixel_ratio_arg dpr = capped_ratio_spec dpr
   \<and> num_le (pixel_ratio_arg dpr) (Fin 2)
   \<and> (not_negative dpr \<longrightarrow> in_0_2 (pixel_ratio_arg dpr))
   \<and> (script e = Inr s0 \<longrightarrow>
        pixelRatio (renderer s0) = pixel_ratio_arg (devicePixelRatio e)
        \<and> (\<forall>v. SetPixelRatio v \<in> set (trace s0) \<longleftrightarrow> v = pixel_ratio_arg (devicePixelRatio e)))"
  using pixel_ratio_is_spec [of dpr] spec_at_most_2 [of dpr] spec_in_range [of dpr]
    script_ratio [of e s0]
  by simp

theorem pixel_ratio_capped_witness:
  "not_negative (Num (Fin 3)) \<and> pixel_ratio_arg (Num (Fin 3)) = Fin 2
   \<and> in_0_2 (pixel_ratio_arg (Num (Fin 3)))
   \<and> script bare_page = Inr (loaded bare_page)
   \<and> pixelRatio (renderer (loaded bare_page)) = Fin 2"
  using pixel_ratio_capped [of "Num (Fin 3)" bare_page "loaded bare_page"] bare_loaded bare_dpr
  by (simp add: not_negative_def capped_ratio_spec_def in_0_2_def)

text \<open>
  A negative device pixel ratio is truthy and below 2, so it is passed on as it is: the
  lower bound of the interval does not hold for every value.
\<close>

theorem negative_ratio_counterexample:
  "script negative_ratio_page = Inr (loaded negative_ratio_page)
   \<and> pixelRatio (renderer (loaded negative_ratio_page)) = Fin (- 1)
   \<and> \<not> in_0_2 (pixelRatio (renderer (loaded negative_ratio_page)))"
  by (simp add: script_def loaded_def negative_ratio_page_def bare_page_def body_defs
        pixel_ratio_arg_def math_min_def js_or_def in_0_2_def)

end
